theory Spec2Isabelle
  imports Main "HOL-Library.Word"
begin

unbundle bit_operations_syntax

section \<open>The launcher's view of the operating system\<close>

text \<open>
  The program \<^verbatim>\<open>new-network-namespace.c\<close> is one sequential process. Everything it
  does is a call into the kernel or into libc, a write to standard error, or the end of
  the process. The model threads a \<open>state\<close> through the functions of the source (the
  value of \<open>errno\<close>, the global \<open>global_debug\<close>, and the chronological \<open>trace\<close> of
  calls issued and text printed) and takes the answers of the operating system from an
  \<open>env\<close>: no call site is executed twice in one run, so one answer per call is enough.

  A call that fails returns its failure value (\<open>-1\<close>, or \<open>NULL\<close> for \<open>fopen\<close>) and
  stores its error number in \<open>errno\<close>, as Linux and glibc do; a call that succeeds leaves
  \<open>errno\<close> alone.
\<close>

datatype sysret = Ok | Fail int

datatype call =
    Unshare "32 word"
  | Fopen string
  | Vfprintf string string
  | Fclose string
  | Setresuid int int int
  | Setresgid int int int
  | Execvp string "string list"

datatype event =
    Getuid "32 word"
  | Getgid "32 word"
  | Sys call sysret
  | Stderr string

text \<open>The answers for one pseudo-file: to \<open>fopen(name, "w")\<close>, to the \<open>vfprintf\<close>
  on the stream and to the \<open>fclose\<close> that flushes it.\<close>

record file_env =
  fopen_r :: sysret
  vfprintf_r :: sysret
  fclose_r :: sysret

text \<open>\<open>getuid\<close> and \<open>getgid\<close> return \<open>uid_t\<close> and \<open>gid_t\<close>, unsigned 32-bit
  integers, and cannot fail. \<open>execvp_r = Ok\<close> means the process image was replaced.
  \<open>strerror\<close> is libc's table of messages, which \<open>perror\<close> consults.\<close>

record env =
  getuid_r :: "32 word"
  getgid_r :: "32 word"
  unshare_r :: sysret
  files :: "string \<Rightarrow> file_env"
  setresuid_r :: sysret
  setresgid_r :: sysret
  execvp_r :: sysret
  strerror :: "int \<Rightarrow> string"

record state =
  errno :: int
  global_debug :: bool
  trace :: "event list"

text \<open>How a run ends: \<open>Exit l n\<close> is the call \<open>exit(n)\<close> written (or expanded from a
  macro) at line \<open>l\<close> of the source, \<open>Exec f a\<close> is a successful \<open>execvp(f, a)\<close>,
  \<open>Return n\<close> is \<open>main\<close> returning \<open>n\<close>, and \<open>Undefined\<close> is a null pointer handed to
  \<open>execvp\<close> as the file to run.\<close>

datatype outcome = Exit nat int | Exec string "string list" | Return int | Undefined

text \<open>The status the parent observes is the low byte of the argument of \<open>exit\<close>.\<close>

definition wait_status :: "int \<Rightarrow> int" where
  "wait_status n = n mod 256"

definition ENOENT :: int where
  "ENOENT = 2"

text \<open>The namespace flags of \<^verbatim>\<open><sched.h>\<close> on Linux.\<close>

definition CLONE_NEWNS :: "32 word" where
  "CLONE_NEWNS = 0x00020000"

definition CLONE_NEWUSER :: "32 word" where
  "CLONE_NEWUSER = 0x10000000"

definition CLONE_NEWNET :: "32 word" where
  "CLONE_NEWNET = 0x40000000"

definition initial_state :: state where
  "initial_state = \<lparr>errno = 0, global_debug = False, trace = []\<rparr>"

subsection \<open>Printing\<close>

definition digit :: "nat \<Rightarrow> char" where
  "digit n = ''0123456789'' ! (n mod 10)"

fun show_nat :: "nat \<Rightarrow> string" where
  "show_nat n = (if n < 10 then [digit n] else show_nat (n div 10) @ [digit n])"

declare show_nat.simps [simp del]

text \<open>The conversion \<^verbatim>\<open>%d\<close> of \<open>printf\<close>.\<close>

definition fmt_d :: "int \<Rightarrow> string" where
  "fmt_d i = (if i < 0 then CHR ''-'' # show_nat (nat (- i)) else show_nat (nat i))"

definition fprintf_stderr :: "string \<Rightarrow> state \<Rightarrow> state" where
  "fprintf_stderr text s = s\<lparr>trace := trace s @ [Stderr text]\<rparr>"

text \<open>\<^verbatim>\<open>PRINT_DEBUG(...)\<close>: prints only when \<open>global_debug\<close> is set, with the prefix
  \<^verbatim>\<open>sandbox.c: \<close>.\<close>

definition PRINT_DEBUG :: "string \<Rightarrow> state \<Rightarrow> state" where
  "PRINT_DEBUG text s = (if global_debug s then fprintf_stderr (''sandbox.c: '' @ text) s else s)"

text \<open>\<open>perror(label)\<close> prints the label, a colon and a space, the message for the current
  \<open>errno\<close>, and a newline.\<close>

definition perror :: "env \<Rightarrow> string \<Rightarrow> state \<Rightarrow> state" where
  "perror env label s = fprintf_stderr (label @ '': '' @ strerror env (errno s) @ ''\<newline>'') s"

subsection \<open>Calls\<close>

text \<open>One call with the answer \<open>r\<close>: it is recorded in the trace, and returns \<open>0\<close>, or
  \<open>-1\<close> with \<open>errno\<close> set.\<close>

definition sys :: "call \<Rightarrow> sysret \<Rightarrow> state \<Rightarrow> int \<times> state" where
  "sys c r s =
     (case r of
        Ok \<Rightarrow> (0, s\<lparr>trace := trace s @ [Sys c Ok]\<rparr>)
      | Fail e \<Rightarrow> (- 1, s\<lparr>errno := e, trace := trace s @ [Sys c (Fail e)]\<rparr>))"

text \<open>\<^verbatim>\<open>#define CHECK_CALL(x) if ((x) == -1) { perror(#x); exit(1); }\<close>, used at line
  \<open>line\<close>; \<open>label\<close> is the text of the argument, which \<^verbatim>\<open>#x\<close> turns into a string.\<close>

definition CHECK_CALL :: "env \<Rightarrow> string \<Rightarrow> nat \<Rightarrow> int \<times> state \<Rightarrow> (outcome \<times> state) + state" where
  "CHECK_CALL env label line x =
     (case x of (r, s) \<Rightarrow> if r = - 1 then Inl (Exit line 1, perror env label s) else Inr s)"

section \<open>Command line parsing\<close>

subsection \<open>\<open>getopt\<close>\<close>

text \<open>
  \<open>getopt\<close> is libc's. The model follows glibc's \<open>getopt(3)\<close> for the option strings
  that begin with \<^verbatim>\<open>+\<close> (the scan stops at the first argument that is not an option)
  and name no option that takes an argument, which is what \<open>ParseCommandLine\<close> passes
  (\<^verbatim>\<open>"+:D"\<close>; the \<^verbatim>\<open>:\<close> in front only silences getopt's own messages).
  \<open>optind\<close> is the index of the next element of \<open>argv\<close> to scan, \<open>optopt\<close> the
  offending option character, and \<open>nextchar\<close> what is left of the cluster of option
  letters being scanned. \<open>argv\<close> is the list of the \<open>argc\<close> arguments, without the
  null pointer that ends it.
\<close>

record getopt_state =
  optind :: nat
  optopt :: char
  nextchar :: string

definition getopt_init :: getopt_state where
  "getopt_init = \<lparr>optind = 1, optopt = CHR ''?'', nextchar = []\<rparr>"

text \<open>An element is not an option when it does not start with \<^verbatim>\<open>-\<close> or is \<^verbatim>\<open>-\<close>
  alone.\<close>

definition NONOPTION_P :: "string \<Rightarrow> bool" where
  "NONOPTION_P a = (case a of [] \<Rightarrow> True | c # r \<Rightarrow> c \<noteq> CHR ''-'' \<or> r = [])"

text \<open>Scanning the next letter \<open>c\<close> of the cluster: \<open>optind\<close> moves on when the letter
  is the last of its element; a letter that is not in the option string (or is \<^verbatim>\<open>:\<close>
  or \<^verbatim>\<open>;\<close>) is returned as \<^verbatim>\<open>?\<close> with \<open>optopt\<close> set.\<close>

definition getopt_scan :: "string \<Rightarrow> getopt_state \<Rightarrow> int \<times> getopt_state" where
  "getopt_scan optstring g =
     (case nextchar g of
        [] \<Rightarrow> (- 1, g)
      | c # rest \<Rightarrow>
          (let g1 = g\<lparr>nextchar := rest, optind := (if rest = [] then optind g + 1 else optind g)\<rparr>
           in if c \<notin> set optstring \<or> c = CHR '':'' \<or> c = CHR '';''
              then (of_char (CHR ''?''), g1\<lparr>optopt := c\<rparr>)
              else (of_char c, g1)))"

definition getopt :: "string list \<Rightarrow> string \<Rightarrow> getopt_state \<Rightarrow> int \<times> getopt_state" where
  "getopt argv optstring g =
     (let os = (case optstring of [] \<Rightarrow> [] | c # r \<Rightarrow> if c = CHR ''+'' then r else optstring)
      in if argv = [] then (- 1, g)
         else if nextchar g \<noteq> [] then getopt_scan os g
         else if length argv \<le> optind g then (- 1, g)
         else if argv ! optind g = ''--'' then (- 1, g\<lparr>optind := optind g + 1\<rparr>)
         else if NONOPTION_P (argv ! optind g) then (- 1, g)
         else getopt_scan os (g\<lparr>nextchar := tl (argv ! optind g)\<rparr>))"

subsection \<open>\<open>Usage\<close> and \<open>ParseCommandLine\<close>\<close>

text \<open>\<open>argv[0]\<close> printed with \<^verbatim>\<open>%s\<close>; glibc prints \<^verbatim>\<open>(null)\<close> for the null pointer
  that \<open>argv[0]\<close> is when \<open>argc\<close> is \<open>0\<close>.\<close>

definition argv0 :: "string list \<Rightarrow> string" where
  "argv0 argv = (case argv of [] \<Rightarrow> ''(null)'' | a # _ \<Rightarrow> a)"

text \<open>\<open>Usage(argc, argv, fmt, ...)\<close>; \<open>msg\<close> is the formatted message. It prints the
  message, the synopsis, the arguments provided and the help text, and exits with status 1
  at line 165.\<close>

definition Usage :: "string list \<Rightarrow> string \<Rightarrow> state \<Rightarrow> outcome \<times> state" where
  "Usage argv msg s =
     (let s1 = fprintf_stderr msg s;
          s2 = fprintf_stderr
                 (''\<newline>Create a new empty network namespace(plus user namespace) for testing''
                  @ ''\<newline>Usage: '' @ argv0 argv @ '' [-C|--] command arg1\<newline>'') s1;
          s3 = fprintf_stderr ''  provided:'' s2;
          s4 = fold (\<lambda>a. fprintf_stderr ('' '' @ a)) argv s3;
          s5 = fprintf_stderr
                 (''\<newline>Mandatory arguments:\<newline>''
                  @ ''  [--] command to run inside sandbox, followed by arguments\<newline>''
                  @ ''\<newline>''
                  @ ''Optional arguments:\<newline>''
                  @ ''  -D if set, debug info will be printed\<newline>'') s4
      in (Exit 165 1, s5))"

record Options =
  args :: "string list"

text \<open>What is left to scan: it decreases with every option letter that \<open>getopt\<close>
  returns, which is why the loop of \<open>ParseCommandLine\<close> ends.\<close>

definition unscanned :: "string list \<Rightarrow> getopt_state \<Rightarrow> nat" where
  "unscanned argv g =
     (if nextchar g = [] then sum_list (map length (drop (optind g) argv))
      else length (nextchar g) + sum_list (map length (drop (Suc (optind g)) argv)))"

lemma getopt_scan_unscanned:
  "getopt_scan os g = (c, g') \<Longrightarrow> c \<noteq> - 1 \<Longrightarrow> unscanned argv g' < unscanned argv g"
  by (auto simp: getopt_scan_def unscanned_def Let_def split: list.splits if_splits)

lemma getopt_unscanned:
  assumes "getopt argv optstring g = (c, g')" and "c \<noteq> - 1"
  shows "unscanned argv g' < unscanned argv g"
proof (cases "nextchar g = []")
  case False
  with assms show ?thesis
    by (auto simp: getopt_def Let_def split: if_splits dest: getopt_scan_unscanned)
next
  case True
  let ?a = "argv ! optind g"
  let ?os = "case optstring of [] \<Rightarrow> [] | c # r \<Rightarrow> if c = CHR ''+'' then r else optstring"
  from assms True have in_range: "optind g < length argv" and opt: "\<not> NONOPTION_P ?a"
    and scan: "getopt_scan ?os (g\<lparr>nextchar := tl ?a\<rparr>) = (c, g')"
    by (auto simp: getopt_def Let_def split: if_splits)
  from opt have tl_ne: "tl ?a \<noteq> []" and len: "length ?a = Suc (length (tl ?a))"
    by (auto simp: NONOPTION_P_def split: list.splits)
  have "unscanned argv g' < unscanned argv (g\<lparr>nextchar := tl ?a\<rparr>)"
    using scan assms(2) by (rule getopt_scan_unscanned)
  also have "\<dots> = length (tl ?a) + sum_list (map length (drop (Suc (optind g)) argv))"
    using tl_ne by (simp add: unscanned_def)
  also have "\<dots> < length ?a + sum_list (map length (drop (Suc (optind g)) argv))"
    using len by simp
  also have "\<dots> = unscanned argv g"
    using True in_range by (simp add: unscanned_def Cons_nth_drop_Suc [symmetric])
  finally show ?thesis .
qed

text \<open>The \<^verbatim>\<open>while ((c = getopt(argc, argv, "+:D")) != -1) switch (c) ...\<close> of lines
  173 to 185. \<open>Usage\<close> does not return, so the \<^verbatim>\<open>break\<close> after it is never taken.\<close>

function ParseCommandLine_loop ::
    "string list \<Rightarrow> getopt_state \<Rightarrow> state \<Rightarrow> (outcome \<times> state) + (getopt_state \<times> state)" where
  "ParseCommandLine_loop argv g s =
     (case getopt argv ''+:D'' g of (c, g') \<Rightarrow>
        if c = - 1 then Inr (g', s)
        else if c = of_char (CHR ''D'') then ParseCommandLine_loop argv g' (s\<lparr>global_debug := True\<rparr>)
        else if c = of_char (CHR ''?'') then
          Inl (Usage argv (''Unrecognized argument: -'' @ [optopt g'] @ '' (''
                           @ fmt_d (int (optind g')) @ '')'') s)
        else if c = of_char (CHR '':'') then
          Inl (Usage argv (''Flag -'' @ [optopt g'] @ '' requires an argument'') s)
        else ParseCommandLine_loop argv g' s)"
  by pat_completeness auto
termination
  by (relation "measure (\<lambda>(argv, g, s). unscanned argv g)") (auto dest: getopt_unscanned [OF sym])

declare ParseCommandLine_loop.simps [simp del]

text \<open>\<open>opt->args = argv + optind\<close> is the list of the arguments from index \<open>optind\<close> on;
  the test \<open>argc <= optind\<close> of line 188 follows the assignment.\<close>

definition ParseCommandLine ::
    "string list \<Rightarrow> state \<Rightarrow> (outcome \<times> state) + (Options \<times> state)" where
  "ParseCommandLine argv s =
     (case ParseCommandLine_loop argv getopt_init s of
        Inl fin \<Rightarrow> Inl fin
      | Inr (g, s') \<Rightarrow>
          (let opt = \<lparr>args = drop (optind g) argv\<rparr>
           in if length argv \<le> optind g then Inl (Usage argv ''No command specified'' s')
              else Inr (opt, s')))"

section \<open>Identity remapping\<close>

text \<open>
  \<open>WriteFile(filename, fmt, ...)\<close>; \<open>text\<close> is the formatted payload. \<open>fopen\<close> returning
  \<open>NULL\<close> gives \<open>-1\<close>; otherwise \<open>r\<close> is the result of \<open>vfprintf\<close> (the number of
  characters printed, or \<open>-1\<close>), and only when \<open>r >= 0\<close> is the stream closed and the
  result of \<open>fclose\<close> returned.
\<close>

definition WriteFile :: "env \<Rightarrow> string \<Rightarrow> string \<Rightarrow> state \<Rightarrow> int \<times> state" where
  "WriteFile env filename text s =
     (case sys (Fopen filename) (fopen_r (files env filename)) s of (stream, s1) \<Rightarrow>
        if stream = - 1 then (- 1, s1)
        else
          (case sys (Vfprintf filename text) (vfprintf_r (files env filename)) s1 of (w, s2) \<Rightarrow>
             (let r = (if w = - 1 then - 1 else int (length text))
              in if r \<ge> 0 then sys (Fclose filename) (fclose_r (files env filename)) s2
                 else (r, s2))))"

definition dquote :: string where
  "dquote = [CHR 0x22]"

definition backslash_n :: string where
  "backslash_n = [CHR 0x5C, CHR ''n'']"

text \<open>The labels that \<^verbatim>\<open>#x\<close> makes of the arguments of \<open>CHECK_CALL\<close> in
  \<open>SetupUserNamespace\<close>, and the argument of \<open>perror\<close> at line 129.\<close>

definition label_setgroups :: string where
  "label_setgroups =
     ''WriteFile('' @ dquote @ ''/proc/self/setgroups'' @ dquote @ '', '' @ dquote @ ''deny'' @ dquote @ '')''"

definition label_map :: "string \<Rightarrow> string \<Rightarrow> string" where
  "label_map filename var =
     ''WriteFile('' @ dquote @ filename @ dquote @ '', '' @ dquote @ ''0 %d 1'' @ backslash_n @ dquote
     @ '', '' @ var @ '')''"

text \<open>The payload \<^verbatim>\<open>"0 %d 1\n"\<close> for the id \<open>i\<close>.\<close>

definition map_line :: "int \<Rightarrow> string" where
  "map_line i = ''0 '' @ fmt_d i @ '' 1\<newline>''"

text \<open>\<open>SetupUserNamespace(uid, gid)\<close>, lines 123 to 139.\<close>

definition SetupUserNamespace :: "env \<Rightarrow> int \<Rightarrow> int \<Rightarrow> state \<Rightarrow> (outcome \<times> state) + state" where
  "SetupUserNamespace env uid gid s =
     (case WriteFile env ''/proc/self/setgroups'' ''deny'' s of (r, s1) \<Rightarrow>
        if r < 0 \<and> errno s1 \<noteq> ENOENT then Inl (Exit 130 (- 1), perror env label_setgroups s1)
        else
          (case CHECK_CALL env (label_map ''/proc/self/uid_map'' ''uid'') 134
                  (WriteFile env ''/proc/self/uid_map'' (map_line uid) s1) of
             Inl fin \<Rightarrow> Inl fin
           | Inr s2 \<Rightarrow>
          (case CHECK_CALL env (label_map ''/proc/self/gid_map'' ''gid'') 135
                  (WriteFile env ''/proc/self/gid_map'' (map_line gid) s2) of
             Inl fin \<Rightarrow> Inl fin
           | Inr s3 \<Rightarrow>
          (case CHECK_CALL env ''setresuid(0, 0, 0)'' 137
                  (sys (Setresuid 0 0 0) (setresuid_r env) s3) of
             Inl fin \<Rightarrow> Inl fin
           | Inr s4 \<Rightarrow>
              CHECK_CALL env ''setresgid(0, 0, 0)'' 138
                  (sys (Setresgid 0 0 0) (setresgid_r env) s4)))))"

section \<open>Process replacement\<close>

text \<open>
  \<open>execvp(file, argv)\<close> either replaces the process image, and then nothing of the
  launcher runs any more, or returns \<open>-1\<close> with \<open>errno\<close> set.

  \<open>SpawnCommand(argv)\<close>, lines 88 to 105: the list is the vector up to its null pointer.
  With an empty list \<open>argv[0]\<close> is that null pointer, and \<open>execvp\<close> is handed a null file
  name. The statements of lines 103 and 104 follow the \<open>CHECK_CALL\<close> of line 102.
\<close>

definition SpawnCommand :: "env \<Rightarrow> string list \<Rightarrow> state \<Rightarrow> (outcome \<times> state) + state" where
  "SpawnCommand env argv s =
     (let s1 = fold (\<lambda>a. PRINT_DEBUG (''arg: '' @ a @ ''\<newline>'')) argv s
      in case argv of
           [] \<Rightarrow> Inl (Undefined, s1)
         | file # _ \<Rightarrow>
             (case execvp_r env of
                Ok \<Rightarrow> Inl (Exec file argv, s1\<lparr>trace := trace s1 @ [Sys (Execvp file argv) Ok]\<rparr>)
              | Fail e \<Rightarrow>
                  (case CHECK_CALL env ''execvp(argv[0], argv)'' 102
                          (sys (Execvp file argv) (Fail e) s1) of
                     Inl fin \<Rightarrow> Inl fin
                   | Inr s2 \<Rightarrow>
                       Inl (Exit 104 1,
                            PRINT_DEBUG (''Exec failed near new-network-namespace.c:103\<newline>'') s2))))"

section \<open>The program\<close>

text \<open>\<open>main(argc, argv)\<close>, lines 67 to 86. \<open>int uid = getuid()\<close> reads the unsigned
  32-bit id as a signed 32-bit integer.\<close>

definition main :: "env \<Rightarrow> string list \<Rightarrow> outcome \<times> state" where
  "main env argv =
     (case ParseCommandLine argv initial_state of
        Inl fin \<Rightarrow> fin
      | Inr (opt, s1) \<Rightarrow>
          (let s2 = s1\<lparr>trace := trace s1 @ [Getuid (getuid_r env)]\<rparr>;
               uid = sint (getuid_r env);
               s3 = s2\<lparr>trace := trace s2 @ [Getgid (getgid_r env)]\<rparr>;
               gid = sint (getgid_r env)
           in case CHECK_CALL env ''unshare(CLONE_NEWNS | CLONE_NEWUSER | CLONE_NEWNET)'' 76
                     (sys (Unshare (CLONE_NEWNS OR CLONE_NEWUSER OR CLONE_NEWNET)) (unshare_r env) s3) of
                Inl fin \<Rightarrow> fin
              | Inr s4 \<Rightarrow>
                  (case SetupUserNamespace env uid gid s4 of
                     Inl fin \<Rightarrow> fin
                   | Inr s5 \<Rightarrow>
                       (case SpawnCommand env (args opt) s5 of
                          Inl fin \<Rightarrow> fin
                        | Inr s6 \<Rightarrow> (Return 0, s6)))))"

section \<open>What a run shows\<close>

text \<open>The text written to standard error, the calls issued (with their results), and the
  exit status, if the run ended in \<open>exit\<close>.\<close>

fun stderr_text :: "event list \<Rightarrow> string" where
  "stderr_text [] = []"
| "stderr_text (Stderr m # t) = m @ stderr_text t"
| "stderr_text (_ # t) = stderr_text t"

fun is_call :: "event \<Rightarrow> bool" where
  "is_call (Stderr _) = False"
| "is_call _ = True"

definition calls :: "event list \<Rightarrow> event list" where
  "calls t = filter is_call t"

fun exit_status :: "outcome \<Rightarrow> int option" where
  "exit_status (Exit l n) = Some (wait_status n)"
| "exit_status _ = None"

definition run_stderr :: "env \<Rightarrow> string list \<Rightarrow> string" where
  "run_stderr env argv = stderr_text (trace (snd (main env argv)))"

definition run_calls :: "env \<Rightarrow> string list \<Rightarrow> event list" where
  "run_calls env argv = calls (trace (snd (main env argv)))"

definition run_outcome :: "env \<Rightarrow> string list \<Rightarrow> outcome" where
  "run_outcome env argv = fst (main env argv)"

text \<open>Concrete answers of the operating system, for the examples: glibc's messages, a
  pseudo-file that can be written, one that does not exist, and a machine on which every
  call succeeds for the user 1000.\<close>

definition glibc_strerror :: "int \<Rightarrow> string" where
  "glibc_strerror e =
     (if e = 1 then ''Operation not permitted''
      else if e = 2 then ''No such file or directory''
      else if e = 13 then ''Permission denied''
      else if e = 22 then ''Invalid argument''
      else ''Unknown error '' @ fmt_d e)"

definition writable :: file_env where
  "writable = \<lparr>fopen_r = Ok, vfprintf_r = Ok, fclose_r = Ok\<rparr>"

definition absent :: file_env where
  "absent = \<lparr>fopen_r = Fail ENOENT, vfprintf_r = Ok, fclose_r = Ok\<rparr>"

definition good_env :: env where
  "good_env = \<lparr>getuid_r = 1000, getgid_r = 1000, unshare_r = Ok, files = (\<lambda>f. writable),
               setresuid_r = Ok, setresgid_r = Ok, execvp_r = Ok, strerror = glibc_strerror\<rparr>"

text \<open>The state in which a function of the launcher leaves the process, whether it
  returned or ended the process.\<close>

definition final :: "(outcome \<times> state) + state \<Rightarrow> state" where
  "final r = (case r of Inl (out, s) \<Rightarrow> s | Inr s \<Rightarrow> s)"

text \<open>Kinds of calls: the pseudo-file a call works on, the calls on the two mapping files,
  the credential calls, and the calls that failed.\<close>

fun file_of :: "event \<Rightarrow> string option" where
  "file_of (Sys (Fopen f) r) = Some f"
| "file_of (Sys (Vfprintf f t) r) = Some f"
| "file_of (Sys (Fclose f) r) = Some f"
| "file_of _ = None"

definition is_map_write :: "event \<Rightarrow> bool" where
  "is_map_write e = (file_of e = Some ''/proc/self/uid_map'' \<or> file_of e = Some ''/proc/self/gid_map'')"

fun is_cred :: "event \<Rightarrow> bool" where
  "is_cred (Sys (Setresuid a b c) r) = True"
| "is_cred (Sys (Setresgid a b c) r) = True"
| "is_cred _ = False"

fun is_unshare :: "event \<Rightarrow> bool" where
  "is_unshare (Sys (Unshare fl) r) = True"
| "is_unshare _ = False"

fun is_failure :: "event \<Rightarrow> bool" where
  "is_failure (Sys c (Fail e)) = True"
| "is_failure _ = False"

text \<open>The pseudo-files opened for writing, and the payloads handed to \<open>vfprintf\<close> with
  the file they go to, both in the order of the calls.\<close>

fun opened :: "event list \<Rightarrow> string list" where
  "opened [] = []"
| "opened (Sys (Fopen f) r # t) = f # opened t"
| "opened (_ # t) = opened t"

fun payloads :: "event list \<Rightarrow> (string \<times> string) list" where
  "payloads [] = []"
| "payloads (Sys (Vfprintf f p) r # t) = (f, p) # payloads t"
| "payloads (_ # t) = payloads t"

text \<open>\<open>mentions w t\<close>: the word \<open>w\<close> occurs in the text \<open>t\<close>.\<close>

fun starts_with :: "string \<Rightarrow> string \<Rightarrow> bool" where
  "starts_with [] t = True"
| "starts_with (a # w) [] = False"
| "starts_with (a # w) (c # t) = (a = c \<and> starts_with w t)"

fun mentions :: "string \<Rightarrow> string \<Rightarrow> bool" where
  "mentions w [] = (w = [])"
| "mentions w (c # t) = (starts_with w (c # t) \<or> mentions w t)"

text \<open>
  An argument list without a command: every argument after the program name is an option
  (it starts with \<^verbatim>\<open>-\<close> and is not \<^verbatim>\<open>-\<close> alone), except that the marker
  \<^verbatim>\<open>--\<close> may come last.
\<close>

fun lacks_command_tail :: "string list \<Rightarrow> bool" where
  "lacks_command_tail [] = True"
| "lacks_command_tail (a # as) =
     (if a = ''--'' then as = [] else \<not> NONOPTION_P a \<and> lacks_command_tail as)"

definition lacks_command :: "string list \<Rightarrow> bool" where
  "lacks_command argv = (case argv of [] \<Rightarrow> True | prog # rest \<Rightarrow> lacks_command_tail rest)"

text \<open>
  The first option letter that is not \<^verbatim>\<open>D\<close>, in a cluster of letters and in a list of
  arguments, with the value that \<open>optind\<close> has when \<open>getopt\<close> reports it: the index
  \<open>i\<close> of the argument, or the next index when the letter is the last of its argument.
  The search ends at \<^verbatim>\<open>--\<close> and at the first argument that is not an option.
\<close>

fun cluster_unknown :: "nat \<Rightarrow> string \<Rightarrow> (char \<times> nat) option" where
  "cluster_unknown i [] = None"
| "cluster_unknown i (c # r) =
     (if c = CHR ''D'' then cluster_unknown i r else Some (c, if r = [] then Suc i else i))"

fun first_unknown :: "nat \<Rightarrow> string list \<Rightarrow> (char \<times> nat) option" where
  "first_unknown i [] = None"
| "first_unknown i (a # as) =
     (if a = ''--'' \<or> NONOPTION_P a then None
      else case cluster_unknown i (tl a) of Some x \<Rightarrow> Some x | None \<Rightarrow> first_unknown (Suc i) as)"

text \<open>The first line of the usage message for an argument list without a command.\<close>

definition usage_message :: "string list \<Rightarrow> string" where
  "usage_message argv =
     (case first_unknown 1 (tl argv) of
        None \<Rightarrow> ''No command specified''
      | Some (c, n) \<Rightarrow> ''Unrecognized argument: -'' @ [c] @ '' ('' @ fmt_d (int n) @ '')'')"

text \<open>The line that \<open>perror(label)\<close> prints when \<open>errno\<close> is \<open>e\<close>, and the lines that
  \<open>SpawnCommand\<close> prints for the command vector when debugging is on.\<close>

definition perror_text :: "env \<Rightarrow> string \<Rightarrow> int \<Rightarrow> string" where
  "perror_text env label e = label @ '': '' @ strerror env e @ ''\<newline>''"

definition debug_args :: "bool \<Rightarrow> string list \<Rightarrow> event list" where
  "debug_args d a = (if d then map (\<lambda>x. Stderr (''sandbox.c: arg: '' @ x @ ''\<newline>'')) a else [])"

text \<open>What one \<open>WriteFile\<close> amounts to under the answers \<open>fe\<close> for its file: the result of
  the first call that fails (or \<open>Ok\<close>), and the calls issued up to there.\<close>

definition write_result :: "file_env \<Rightarrow> sysret" where
  "write_result fe =
     (case fopen_r fe of Fail e \<Rightarrow> Fail e
      | Ok \<Rightarrow> (case vfprintf_r fe of Fail e \<Rightarrow> Fail e | Ok \<Rightarrow> fclose_r fe))"

definition write_events :: "file_env \<Rightarrow> string \<Rightarrow> string \<Rightarrow> event list" where
  "write_events fe f t =
     Sys (Fopen f) (fopen_r fe) #
     (case fopen_r fe of Fail e \<Rightarrow> []
      | Ok \<Rightarrow> Sys (Vfprintf f t) (vfprintf_r fe) #
          (case vfprintf_r fe of Fail e \<Rightarrow> [] | Ok \<Rightarrow> [Sys (Fclose f) (fclose_r fe)]))"

text \<open>The calls up to the successful \<open>unshare\<close>, and the calls of the three writes.\<close>

definition entered :: "env \<Rightarrow> event list" where
  "entered env = [Getuid (getuid_r env), Getgid (getgid_r env),
                  Sys (Unshare (CLONE_NEWNS OR CLONE_NEWUSER OR CLONE_NEWNET)) Ok]"

definition setgroups_events :: "env \<Rightarrow> event list" where
  "setgroups_events env = write_events (files env ''/proc/self/setgroups'') ''/proc/self/setgroups'' ''deny''"

definition uid_map_events :: "env \<Rightarrow> event list" where
  "uid_map_events env =
     write_events (files env ''/proc/self/uid_map'') ''/proc/self/uid_map'' (map_line (sint (getuid_r env)))"

definition gid_map_events :: "env \<Rightarrow> event list" where
  "gid_map_events env =
     write_events (files env ''/proc/self/gid_map'') ''/proc/self/gid_map'' (map_line (sint (getgid_r env)))"

text \<open>The write to the control file succeeded, or failed with \<open>ENOENT\<close>.\<close>

definition setgroups_passed :: "env \<Rightarrow> bool" where
  "setgroups_passed env =
     (write_result (files env ''/proc/self/setgroups'') = Ok
      \<or> write_result (files env ''/proc/self/setgroups'') = Fail ENOENT)"

text \<open>Lines 134 to 138 of \<open>SetupUserNamespace\<close>, and lines 72 to 85 of \<open>main\<close>.\<close>

definition map_and_elevate :: "env \<Rightarrow> int \<Rightarrow> int \<Rightarrow> state \<Rightarrow> (outcome \<times> state) + state" where
  "map_and_elevate env uid gid s1 =
          (case CHECK_CALL env (label_map ''/proc/self/uid_map'' ''uid'') 134
                  (WriteFile env ''/proc/self/uid_map'' (map_line uid) s1) of
             Inl fin \<Rightarrow> Inl fin
           | Inr s2 \<Rightarrow>
          (case CHECK_CALL env (label_map ''/proc/self/gid_map'' ''gid'') 135
                  (WriteFile env ''/proc/self/gid_map'' (map_line gid) s2) of
             Inl fin \<Rightarrow> Inl fin
           | Inr s3 \<Rightarrow>
          (case CHECK_CALL env ''setresuid(0, 0, 0)'' 137
                  (sys (Setresuid 0 0 0) (setresuid_r env) s3) of
             Inl fin \<Rightarrow> Inl fin
           | Inr s4 \<Rightarrow>
              CHECK_CALL env ''setresgid(0, 0, 0)'' 138
                  (sys (Setresgid 0 0 0) (setresgid_r env) s4))))"

definition after_parse :: "env \<Rightarrow> string list \<Rightarrow> state \<Rightarrow> outcome \<times> state" where
  "after_parse env a s1 =
          (let s2 = s1\<lparr>trace := trace s1 @ [Getuid (getuid_r env)]\<rparr>;
               uid = sint (getuid_r env);
               s3 = s2\<lparr>trace := trace s2 @ [Getgid (getgid_r env)]\<rparr>;
               gid = sint (getgid_r env)
           in case CHECK_CALL env ''unshare(CLONE_NEWNS | CLONE_NEWUSER | CLONE_NEWNET)'' 76
                     (sys (Unshare (CLONE_NEWNS OR CLONE_NEWUSER OR CLONE_NEWNET)) (unshare_r env) s3) of
                Inl fin \<Rightarrow> fin
              | Inr s4 \<Rightarrow>
                  (case SetupUserNamespace env uid gid s4 of
                     Inl fin \<Rightarrow> fin
                   | Inr s5 \<Rightarrow>
                       (case SpawnCommand env a s5 of
                          Inl fin \<Rightarrow> fin
                        | Inr s6 \<Rightarrow> (Return 0, s6))))"

text \<open>Two checks on a list: every element with the property \<open>Q\<close> comes after an
  occurrence of \<open>x\<close>; and an element with the property \<open>F\<close> is the last one.\<close>

fun each_preceded :: "('a \<Rightarrow> bool) \<Rightarrow> 'a \<Rightarrow> 'a list \<Rightarrow> bool" where
  "each_preceded Q x [] = True"
| "each_preceded Q x (y # ys) = (y = x \<or> (\<not> Q y \<and> each_preceded Q x ys))"

fun stops_at :: "('a \<Rightarrow> bool) \<Rightarrow> 'a list \<Rightarrow> bool" where
  "stops_at F [] = True"
| "stops_at F (y # ys) = (if F y then ys = [] else stops_at F ys)"

text \<open>A check on the events that \<open>SetupUserNamespace\<close> adds to the trace: a call on the
  control file that fails with \<open>ENOENT\<close> is followed at once by the \<open>fopen\<close> of the
  UID-mapping file, and any other failed call is followed by the line of \<open>perror\<close> for its
  error, and by nothing else.\<close>

fun failures_handled :: "env \<Rightarrow> event list \<Rightarrow> bool" where
  "failures_handled env [] = True"
| "failures_handled env (Sys c (Fail e) # post) =
     (if file_of (Sys c (Fail e)) = Some ''/proc/self/setgroups'' \<and> e = ENOENT
      then (\<exists>r post'. post = Sys (Fopen ''/proc/self/uid_map'') r # post') \<and> failures_handled env post
      else (\<exists>label. post = [Stderr (perror_text env label e)]))"
| "failures_handled env (x # post) = failures_handled env post"

text \<open>A failed call of one of the three stages that follow parsing.\<close>

definition stage_failure :: "event \<Rightarrow> bool" where
  "stage_failure e = (is_failure e \<and> (is_unshare e \<or> is_map_write e \<or> is_cred e))"

text \<open>What is left to scan holds no command, and the first letter other than \<^verbatim>\<open>D\<close> in
  what is left to scan.\<close>

definition scan_open :: "string list \<Rightarrow> getopt_state \<Rightarrow> bool" where
  "scan_open argv g =
     (if nextchar g = [] then lacks_command_tail (drop (optind g) argv)
      else argv \<noteq> [] \<and> lacks_command_tail (drop (Suc (optind g)) argv))"

definition pending :: "string list \<Rightarrow> getopt_state \<Rightarrow> (char \<times> nat) option" where
  "pending argv g =
     (if nextchar g = [] then first_unknown (optind g) (drop (optind g) argv)
      else case cluster_unknown (optind g) (nextchar g) of
             Some x \<Rightarrow> Some x
           | None \<Rightarrow> first_unknown (Suc (optind g)) (drop (Suc (optind g)) argv))"

text \<open>
  The kernel parses the ids of a mapping line as unsigned numbers, and refuses a line with
  a negative id (\<open>EINVAL\<close>): under such a kernel the write of a mapping line with a
  negative id does not succeed.
\<close>

definition rejects_negative_ids :: "env \<Rightarrow> bool" where
  "rejects_negative_ids env =
     ((sint (getuid_r env) < 0 \<longrightarrow> write_result (files env ''/proc/self/uid_map'') \<noteq> Ok)
      \<and> (sint (getgid_r env) < 0 \<longrightarrow> write_result (files env ''/proc/self/gid_map'') \<noteq> Ok))"

section \<open>Auxiliary facts\<close>

lemma stderr_text_append: "stderr_text (a @ b) = stderr_text a @ stderr_text b"
  by (induction a rule: stderr_text.induct) auto

lemma calls_append: "calls (a @ b) = calls a @ calls b"
  by (simp add: calls_def)

lemma fold_fprintf_stderr:
  "fold (\<lambda>a. fprintf_stderr (f a)) xs s = s\<lparr>trace := trace s @ map (\<lambda>a. Stderr (f a)) xs\<rparr>"
  by (induction xs arbitrary: s) (auto simp: fprintf_stderr_def)

lemma stderr_text_map_Stderr: "stderr_text (map (\<lambda>a. Stderr (f a)) xs) = concat (map f xs)"
  by (induction xs) auto

lemma calls_map_Stderr: "calls (map (\<lambda>a. Stderr (f a)) xs) = []"
  by (induction xs) (auto simp: calls_def)

subsection \<open>\<open>Usage\<close> and \<open>ParseCommandLine\<close>\<close>

lemma Usage_outcome: "fst (Usage argv msg s) = Exit 165 1"
  by (simp add: Usage_def Let_def)

lemma Usage_calls: "calls (trace (snd (Usage argv msg s))) = calls (trace s)"
  by (simp add: Usage_def Let_def fold_fprintf_stderr fprintf_stderr_def calls_append calls_map_Stderr)
     (simp add: calls_def)

lemma Usage_stderr:
  "stderr_text (trace (snd (Usage argv msg s))) =
     stderr_text (trace s) @ msg
     @ ''\<newline>Create a new empty network namespace(plus user namespace) for testing\<newline>Usage: ''
     @ argv0 argv @ '' [-C|--] command arg1\<newline>  provided:''
     @ concat (map (\<lambda>a. '' '' @ a) argv)
     @ ''\<newline>Mandatory arguments:\<newline>  [--] command to run inside sandbox, followed by arguments\<newline>\<newline>Optional arguments:\<newline>  -D if set, debug info will be printed\<newline>''"
  by (simp add: Usage_def Let_def fold_fprintf_stderr fprintf_stderr_def stderr_text_append
      stderr_text_map_Stderr)

lemma Usage_last:
  "\<exists>m. m \<noteq> [] \<and> last (trace (snd (Usage argv msg s))) = Stderr m"
  by (simp add: Usage_def Let_def fprintf_stderr_def)

lemma Usage_eq:
  "Usage argv msg s = (out, s') \<Longrightarrow>
     out = Exit 165 1 \<and> calls (trace s') = calls (trace s) \<and>
     (\<exists>m. m \<noteq> [] \<and> last (trace s') = Stderr m) \<and> trace s' \<noteq> []"
  using Usage_outcome [of argv msg s] Usage_calls [of argv msg s] Usage_last [of argv msg s]
  by (auto simp: Usage_def Let_def fprintf_stderr_def)

lemma loop_Inr:
  "ParseCommandLine_loop argv g s = Inr (g', s') \<Longrightarrow> trace s' = trace s \<and> errno s' = errno s"
proof (induction argv g s rule: ParseCommandLine_loop.induct)
  case (1 argv g s)
  obtain c g1 where go: "getopt argv ''+:D'' g = (c, g1)"
    by (cases "getopt argv ''+:D'' g")
  from "1.prems" go show ?case
    using "1.IH"(1) [OF go [symmetric]] "1.IH"(2) [OF go [symmetric]]
    by (subst (asm) ParseCommandLine_loop.simps) (auto split: if_splits)
qed

lemma loop_Inl:
  "ParseCommandLine_loop argv g s = Inl (out, s') \<Longrightarrow>
     out = Exit 165 1 \<and> calls (trace s') = calls (trace s) \<and>
     (\<exists>m. m \<noteq> [] \<and> last (trace s') = Stderr m) \<and> trace s' \<noteq> []"
proof (induction argv g s rule: ParseCommandLine_loop.induct)
  case (1 argv g s)
  obtain c g1 where go: "getopt argv ''+:D'' g = (c, g1)"
    by (cases "getopt argv ''+:D'' g")
  from "1.prems" go show ?case
    using "1.IH"(1) [OF go [symmetric]] "1.IH"(2) [OF go [symmetric]]
    by (subst (asm) ParseCommandLine_loop.simps) (auto split: if_splits dest: Usage_eq)
qed

lemma ParseCommandLine_Inl:
  "ParseCommandLine argv initial_state = Inl (out, s') \<Longrightarrow>
     out = Exit 165 1 \<and> calls (trace s') = [] \<and>
     (\<exists>m. m \<noteq> [] \<and> last (trace s') = Stderr m) \<and> trace s' \<noteq> []"
  by (auto simp: ParseCommandLine_def initial_state_def calls_def Let_def
      split: sum.splits prod.splits if_splits dest!: loop_Inl loop_Inr Usage_eq)

lemma ParseCommandLine_Inr:
  assumes "ParseCommandLine argv s = Inr (opt, s')"
  shows "trace s' = trace s \<and> errno s' = errno s \<and> args opt \<noteq> [] \<and> (\<exists>pre. argv = pre @ args opt)"
proof -
  from assms obtain g where l: "ParseCommandLine_loop argv getopt_init s = Inr (g, s')"
      and o: "args opt = drop (optind g) argv" and n: "optind g < length argv"
    by (auto simp: ParseCommandLine_def Let_def split: sum.splits prod.splits if_splits)
  have "argv = take (optind g) argv @ args opt"
    using o by simp
  then have "\<exists>pre. argv = pre @ args opt" ..
  with loop_Inr [OF l] o n show ?thesis
    by simp
qed

subsection \<open>The outcomes of the later stages\<close>

lemma Setup_Inl_outcome:
  "SetupUserNamespace env uid gid s = Inl (out, s') \<Longrightarrow>
     out = Exit 130 (- 1) \<or> out = Exit 134 1 \<or> out = Exit 135 1 \<or> out = Exit 137 1 \<or> out = Exit 138 1"
  by (auto simp: SetupUserNamespace_def CHECK_CALL_def WriteFile_def sys_def Let_def
      split: sysret.splits prod.splits if_splits sum.splits)

lemma Spawn_cases:
  "SpawnCommand env (cmd # rest) s = Inl (out, s') \<Longrightarrow>
     out = Exec cmd (cmd # rest) \<or> out = Exit 102 1"
  by (auto simp: SpawnCommand_def CHECK_CALL_def sys_def Let_def split: sysret.splits)

lemma Spawn_not_Inr: "SpawnCommand env a s \<noteq> Inr s'"
  by (auto simp: SpawnCommand_def CHECK_CALL_def sys_def Let_def split: sysret.splits list.splits)

lemma main_outcome:
  "run_outcome env argv \<in> {Exit 165 1, Exit 76 1, Exit 130 (- 1), Exit 134 1, Exit 135 1, Exit 137 1,
       Exit 138 1, Exit 102 1} \<or> (\<exists>cmd rest. run_outcome env argv = Exec cmd (cmd # rest))"
proof (cases "ParseCommandLine argv initial_state")
  case (Inl fin)
  then show ?thesis
    using ParseCommandLine_Inl [of argv "fst fin" "snd fin"] by (simp add: run_outcome_def main_def)
next
  case (Inr p)
  obtain opt s1 where p: "p = (opt, s1)"
    by (cases p)
  from Inr p ParseCommandLine_Inr [of argv initial_state opt s1] obtain cmd rest
    where a: "args opt = cmd # rest"
    by (cases "args opt") auto
  show ?thesis
    using Inr p a
    by (auto simp: run_outcome_def main_def Let_def CHECK_CALL_def sys_def Spawn_not_Inr
        split: sysret.splits sum.splits prod.splits dest: Setup_Inl_outcome Spawn_cases)
qed

section \<open>The paths of a run\<close>

lemma fold_PRINT_DEBUG:
  "fold (\<lambda>a. PRINT_DEBUG (f a)) xs s =
     s\<lparr>trace := trace s @ (if global_debug s then map (\<lambda>a. Stderr (''sandbox.c: '' @ f a)) xs else [])\<rparr>"
  by (induction xs arbitrary: s) (auto simp: PRINT_DEBUG_def fprintf_stderr_def)

lemma each_precededD:
  "each_preceded Q x t \<Longrightarrow> \<not> Q x \<Longrightarrow> t = pre @ c # post \<Longrightarrow> Q c \<Longrightarrow> x \<in> set pre"
  by (induction t arbitrary: pre) (auto simp: Cons_eq_append_conv)

lemma stops_atD:
  "stops_at F t \<Longrightarrow> t = pre @ c # post \<Longrightarrow> F c \<Longrightarrow> post = []"
  by (induction t arbitrary: pre) (auto simp: Cons_eq_append_conv split: if_splits)

lemma main_split:
  "main env argv =
     (case ParseCommandLine argv initial_state of
        Inl fin \<Rightarrow> fin
      | Inr (opt, s1) \<Rightarrow> after_parse env (args opt) s1)"
  unfolding main_def after_parse_def ..

lemma Setup_split:
  "SetupUserNamespace env uid gid s =
     (case WriteFile env ''/proc/self/setgroups'' ''deny'' s of (r, s1) \<Rightarrow>
        if r < 0 \<and> errno s1 \<noteq> ENOENT then Inl (Exit 130 (- 1), perror env label_setgroups s1)
        else map_and_elevate env uid gid s1)"
  unfolding SetupUserNamespace_def map_and_elevate_def ..

lemma write_events_Ok:
  "write_result fe = Ok \<Longrightarrow>
     write_events fe f t = [Sys (Fopen f) Ok, Sys (Vfprintf f t) Ok, Sys (Fclose f) Ok]"
  by (simp add: write_result_def write_events_def split: sysret.splits)

lemma write_events_Fail:
  "write_result fe = Fail e \<Longrightarrow>
     write_events fe f t = [Sys (Fopen f) (Fail e)]
     \<or> write_events fe f t = [Sys (Fopen f) Ok, Sys (Vfprintf f t) (Fail e)]
     \<or> write_events fe f t = [Sys (Fopen f) Ok, Sys (Vfprintf f t) Ok, Sys (Fclose f) (Fail e)]"
  by (simp add: write_result_def write_events_def split: sysret.splits)

lemma WriteFile_eq:
  "WriteFile env f t s =
     (case write_result (files env f) of
        Ok \<Rightarrow> (0, s\<lparr>trace := trace s @ write_events (files env f) f t\<rparr>)
      | Fail e \<Rightarrow> (- 1, s\<lparr>errno := e, trace := trace s @ write_events (files env f) f t\<rparr>))"
  by (simp add: WriteFile_def sys_def write_result_def write_events_def Let_def split: sysret.splits)

lemma CHECK_sys:
  "CHECK_CALL env label line (sys c r s) =
     (case r of
        Ok \<Rightarrow> Inr (s\<lparr>trace := trace s @ [Sys c Ok]\<rparr>)
      | Fail e \<Rightarrow> Inl (Exit line 1, s\<lparr>errno := e, trace := trace s @ [Sys c (Fail e),
           Stderr (perror_text env label e)]\<rparr>))"
  by (simp add: CHECK_CALL_def sys_def perror_def fprintf_stderr_def perror_text_def split: sysret.splits)

lemma CHECK_WriteFile:
  "CHECK_CALL env label line (WriteFile env f t s) =
     (case write_result (files env f) of
        Ok \<Rightarrow> Inr (s\<lparr>trace := trace s @ write_events (files env f) f t\<rparr>)
      | Fail e \<Rightarrow> Inl (Exit line 1, s\<lparr>errno := e, trace := trace s @ write_events (files env f) f t @
           [Stderr (perror_text env label e)]\<rparr>))"
  by (simp add: CHECK_CALL_def WriteFile_eq perror_def fprintf_stderr_def perror_text_def split: sysret.splits)

lemma map_and_elevate_cases:
  obtains
    (uid_fail) e s' where
      "write_result (files env ''/proc/self/uid_map'') = Fail e"
      "map_and_elevate env uid gid s = Inl (Exit 134 1, s')"
      "trace s' = trace s @ write_events (files env ''/proc/self/uid_map'') ''/proc/self/uid_map'' (map_line uid)
                  @ [Stderr (perror_text env (label_map ''/proc/self/uid_map'' ''uid'') e)]"
  | (gid_fail) e s' where
      "write_result (files env ''/proc/self/uid_map'') = Ok"
      "write_result (files env ''/proc/self/gid_map'') = Fail e"
      "map_and_elevate env uid gid s = Inl (Exit 135 1, s')"
      "trace s' = trace s @ write_events (files env ''/proc/self/uid_map'') ''/proc/self/uid_map'' (map_line uid)
                  @ write_events (files env ''/proc/self/gid_map'') ''/proc/self/gid_map'' (map_line gid)
                  @ [Stderr (perror_text env (label_map ''/proc/self/gid_map'' ''gid'') e)]"
  | (setresuid_fail) e s' where
      "write_result (files env ''/proc/self/uid_map'') = Ok"
      "write_result (files env ''/proc/self/gid_map'') = Ok"
      "setresuid_r env = Fail e"
      "map_and_elevate env uid gid s = Inl (Exit 137 1, s')"
      "trace s' = trace s @ write_events (files env ''/proc/self/uid_map'') ''/proc/self/uid_map'' (map_line uid)
                  @ write_events (files env ''/proc/self/gid_map'') ''/proc/self/gid_map'' (map_line gid)
                  @ [Sys (Setresuid 0 0 0) (Fail e), Stderr (perror_text env ''setresuid(0, 0, 0)'' e)]"
  | (setresgid_fail) e s' where
      "write_result (files env ''/proc/self/uid_map'') = Ok"
      "write_result (files env ''/proc/self/gid_map'') = Ok"
      "setresuid_r env = Ok" "setresgid_r env = Fail e"
      "map_and_elevate env uid gid s = Inl (Exit 138 1, s')"
      "trace s' = trace s @ write_events (files env ''/proc/self/uid_map'') ''/proc/self/uid_map'' (map_line uid)
                  @ write_events (files env ''/proc/self/gid_map'') ''/proc/self/gid_map'' (map_line gid)
                  @ [Sys (Setresuid 0 0 0) Ok, Sys (Setresgid 0 0 0) (Fail e),
                     Stderr (perror_text env ''setresgid(0, 0, 0)'' e)]"
  | (elevated) s' where
      "write_result (files env ''/proc/self/uid_map'') = Ok"
      "write_result (files env ''/proc/self/gid_map'') = Ok"
      "setresuid_r env = Ok" "setresgid_r env = Ok"
      "map_and_elevate env uid gid s = Inr s'"
      "global_debug s' = global_debug s"
      "trace s' = trace s @ write_events (files env ''/proc/self/uid_map'') ''/proc/self/uid_map'' (map_line uid)
                  @ write_events (files env ''/proc/self/gid_map'') ''/proc/self/gid_map'' (map_line gid)
                  @ [Sys (Setresuid 0 0 0) Ok, Sys (Setresgid 0 0 0) Ok]"
proof (cases "write_result (files env ''/proc/self/uid_map'')")
  case (Fail e)
  then show ?thesis
    using uid_fail [of e] by (simp add: map_and_elevate_def CHECK_WriteFile)
next
  case um: Ok
  show ?thesis
  proof (cases "write_result (files env ''/proc/self/gid_map'')")
    case (Fail e)
    with um show ?thesis
      using gid_fail [of e] by (simp add: map_and_elevate_def CHECK_WriteFile)
  next
    case gm: Ok
    show ?thesis
    proof (cases "setresuid_r env")
      case (Fail e)
      with um gm show ?thesis
        using setresuid_fail [of e] by (simp add: map_and_elevate_def CHECK_WriteFile CHECK_sys)
    next
      case su: Ok
      show ?thesis
      proof (cases "setresgid_r env")
        case (Fail e)
        with um gm su show ?thesis
          using setresgid_fail [of e] by (simp add: map_and_elevate_def CHECK_WriteFile CHECK_sys)
      next
        case Ok
        with um gm su show ?thesis
          using elevated by (simp add: map_and_elevate_def CHECK_WriteFile CHECK_sys)
      qed
    qed
  qed
qed

lemma Setup_passed:
  assumes "setgroups_passed env"
  shows "\<exists>s1. SetupUserNamespace env uid gid s = map_and_elevate env uid gid s1
           \<and> global_debug s1 = global_debug s
           \<and> trace s1 = trace s @ setgroups_events env"
  using assms
  by (auto simp: setgroups_passed_def Setup_split WriteFile_eq setgroups_events_def)

lemma Setup_failed:
  assumes "write_result (files env ''/proc/self/setgroups'') = Fail e" and "e \<noteq> ENOENT"
  shows "\<exists>s'. SetupUserNamespace env uid gid s = Inl (Exit 130 (- 1), s')
           \<and> trace s' = trace s @ setgroups_events env @ [Stderr (perror_text env label_setgroups e)]"
  using assms
  by (simp add: Setup_split WriteFile_eq setgroups_events_def perror_def fprintf_stderr_def perror_text_def)

lemma Spawn_eq:
  "SpawnCommand env (cmd # rest) s =
     (case execvp_r env of
        Ok \<Rightarrow> Inl (Exec cmd (cmd # rest),
                s\<lparr>trace := trace s @ debug_args (global_debug s) (cmd # rest)
                  @ [Sys (Execvp cmd (cmd # rest)) Ok]\<rparr>)
      | Fail e \<Rightarrow> Inl (Exit 102 1,
                s\<lparr>errno := e, trace := trace s @ debug_args (global_debug s) (cmd # rest)
                  @ [Sys (Execvp cmd (cmd # rest)) (Fail e),
                     Stderr (perror_text env ''execvp(argv[0], argv)'' e)]\<rparr>))"
  by (simp add: SpawnCommand_def Let_def CHECK_sys PRINT_DEBUG_def fprintf_stderr_def
      perror_text_def debug_args_def fold_PRINT_DEBUG split: sysret.splits)


text \<open>Every run takes one of nine paths: a usage error, or the failure of one of the seven
  stages after parsing, or the new process image.\<close>

lemma main_cases:
  obtains
    (usage) fin where
      "ParseCommandLine argv initial_state = Inl fin"
      "main env argv = fin"
      "fst fin = Exit 165 1"
      "calls (trace (snd fin)) = []"
      "\<exists>m. m \<noteq> [] \<and> last (trace (snd fin)) = Stderr m"
      "trace (snd fin) \<noteq> []"
  | (unshare_fail) cmd rest d e where
      "ParseCommandLine argv initial_state
         = Inr (\<lparr>args = cmd # rest\<rparr>, \<lparr>errno = 0, global_debug = d, trace = []\<rparr>)"
      "unshare_r env = Fail e"
      "fst (main env argv) = Exit 76 1"
      "trace (snd (main env argv)) =
         [Getuid (getuid_r env), Getgid (getgid_r env),
          Sys (Unshare (CLONE_NEWNS OR CLONE_NEWUSER OR CLONE_NEWNET)) (Fail e),
          Stderr (perror_text env ''unshare(CLONE_NEWNS | CLONE_NEWUSER | CLONE_NEWNET)'' e)]"
  | (setgroups_fail) cmd rest d e where
      "ParseCommandLine argv initial_state
         = Inr (\<lparr>args = cmd # rest\<rparr>, \<lparr>errno = 0, global_debug = d, trace = []\<rparr>)"
      "unshare_r env = Ok"
      "write_result (files env ''/proc/self/setgroups'') = Fail e" "e \<noteq> ENOENT"
      "fst (main env argv) = Exit 130 (- 1)"
      "trace (snd (main env argv)) =
         entered env @ setgroups_events env @ [Stderr (perror_text env label_setgroups e)]"
  | (uid_fail) cmd rest d e where
      "ParseCommandLine argv initial_state
         = Inr (\<lparr>args = cmd # rest\<rparr>, \<lparr>errno = 0, global_debug = d, trace = []\<rparr>)"
      "unshare_r env = Ok" "setgroups_passed env"
      "write_result (files env ''/proc/self/uid_map'') = Fail e"
      "fst (main env argv) = Exit 134 1"
      "trace (snd (main env argv)) =
         entered env @ setgroups_events env @ uid_map_events env
         @ [Stderr (perror_text env (label_map ''/proc/self/uid_map'' ''uid'') e)]"
  | (gid_fail) cmd rest d e where
      "ParseCommandLine argv initial_state
         = Inr (\<lparr>args = cmd # rest\<rparr>, \<lparr>errno = 0, global_debug = d, trace = []\<rparr>)"
      "unshare_r env = Ok" "setgroups_passed env"
      "write_result (files env ''/proc/self/uid_map'') = Ok"
      "write_result (files env ''/proc/self/gid_map'') = Fail e"
      "fst (main env argv) = Exit 135 1"
      "trace (snd (main env argv)) =
         entered env @ setgroups_events env @ uid_map_events env @ gid_map_events env
         @ [Stderr (perror_text env (label_map ''/proc/self/gid_map'' ''gid'') e)]"
  | (setresuid_fail) cmd rest d e where
      "ParseCommandLine argv initial_state
         = Inr (\<lparr>args = cmd # rest\<rparr>, \<lparr>errno = 0, global_debug = d, trace = []\<rparr>)"
      "unshare_r env = Ok" "setgroups_passed env"
      "write_result (files env ''/proc/self/uid_map'') = Ok"
      "write_result (files env ''/proc/self/gid_map'') = Ok"
      "setresuid_r env = Fail e"
      "fst (main env argv) = Exit 137 1"
      "trace (snd (main env argv)) =
         entered env @ setgroups_events env @ uid_map_events env @ gid_map_events env
         @ [Sys (Setresuid 0 0 0) (Fail e), Stderr (perror_text env ''setresuid(0, 0, 0)'' e)]"
  | (setresgid_fail) cmd rest d e where
      "ParseCommandLine argv initial_state
         = Inr (\<lparr>args = cmd # rest\<rparr>, \<lparr>errno = 0, global_debug = d, trace = []\<rparr>)"
      "unshare_r env = Ok" "setgroups_passed env"
      "write_result (files env ''/proc/self/uid_map'') = Ok"
      "write_result (files env ''/proc/self/gid_map'') = Ok"
      "setresuid_r env = Ok" "setresgid_r env = Fail e"
      "fst (main env argv) = Exit 138 1"
      "trace (snd (main env argv)) =
         entered env @ setgroups_events env @ uid_map_events env @ gid_map_events env
         @ [Sys (Setresuid 0 0 0) Ok, Sys (Setresgid 0 0 0) (Fail e),
            Stderr (perror_text env ''setresgid(0, 0, 0)'' e)]"
  | (exec_fail) cmd rest d e where
      "ParseCommandLine argv initial_state
         = Inr (\<lparr>args = cmd # rest\<rparr>, \<lparr>errno = 0, global_debug = d, trace = []\<rparr>)"
      "unshare_r env = Ok" "setgroups_passed env"
      "write_result (files env ''/proc/self/uid_map'') = Ok"
      "write_result (files env ''/proc/self/gid_map'') = Ok"
      "setresuid_r env = Ok" "setresgid_r env = Ok" "execvp_r env = Fail e"
      "fst (main env argv) = Exit 102 1"
      "global_debug (snd (main env argv)) = d"
      "trace (snd (main env argv)) =
         entered env @ setgroups_events env @ uid_map_events env @ gid_map_events env
         @ [Sys (Setresuid 0 0 0) Ok, Sys (Setresgid 0 0 0) Ok] @ debug_args d (cmd # rest)
         @ [Sys (Execvp cmd (cmd # rest)) (Fail e), Stderr (perror_text env ''execvp(argv[0], argv)'' e)]"
  | (exec_ok) cmd rest d where
      "ParseCommandLine argv initial_state
         = Inr (\<lparr>args = cmd # rest\<rparr>, \<lparr>errno = 0, global_debug = d, trace = []\<rparr>)"
      "unshare_r env = Ok" "setgroups_passed env"
      "write_result (files env ''/proc/self/uid_map'') = Ok"
      "write_result (files env ''/proc/self/gid_map'') = Ok"
      "setresuid_r env = Ok" "setresgid_r env = Ok" "execvp_r env = Ok"
      "fst (main env argv) = Exec cmd (cmd # rest)"
      "global_debug (snd (main env argv)) = d"
      "trace (snd (main env argv)) =
         entered env @ setgroups_events env @ uid_map_events env @ gid_map_events env
         @ [Sys (Setresuid 0 0 0) Ok, Sys (Setresgid 0 0 0) Ok] @ debug_args d (cmd # rest)
         @ [Sys (Execvp cmd (cmd # rest)) Ok]"
proof -
  note r_uid = uid_fail and r_gid = gid_fail and r_su = setresuid_fail and r_sg = setresgid_fail
  show ?thesis
proof (cases "ParseCommandLine argv initial_state")
  case (Inl fin)
  then have "main env argv = fin"
    by (simp add: main_split)
  with Inl ParseCommandLine_Inl [of argv "fst fin" "snd fin"] show ?thesis
    using usage [of fin] by simp
next
  case (Inr p)
  obtain opt s1 where p: "p = (opt, s1)"
    by (cases p)
  from Inr p ParseCommandLine_Inr [of argv initial_state opt s1] obtain cmd rest
    where a: "args opt = cmd # rest" and t: "trace s1 = []" "errno s1 = 0"
    by (cases "args opt") (auto simp: initial_state_def)
  define d where "d = global_debug s1"
  from t d_def have s1: "s1 = \<lparr>errno = 0, global_debug = d, trace = []\<rparr>"
    by simp
  from a have opt: "opt = \<lparr>args = cmd # rest\<rparr>"
    by simp
  from Inr p opt s1 have parse: "ParseCommandLine argv initial_state
         = Inr (\<lparr>args = cmd # rest\<rparr>, \<lparr>errno = 0, global_debug = d, trace = []\<rparr>)"
    by simp
  then have m: "main env argv = after_parse env (cmd # rest) \<lparr>errno = 0, global_debug = d, trace = []\<rparr>"
    by (simp add: main_split)
  let ?uid = "sint (getuid_r env)" and ?gid = "sint (getgid_r env)"
  show ?thesis
  proof (cases "unshare_r env")
    case (Fail e)
    then show ?thesis
      using unshare_fail [OF parse, of e] by (simp add: m after_parse_def CHECK_sys)
  next
    case un: Ok
    let ?s4 = "\<lparr>errno = 0, global_debug = d, trace = entered env\<rparr>"
    from un have m4: "main env argv =
        (case SetupUserNamespace env ?uid ?gid ?s4 of
           Inl fin \<Rightarrow> fin
         | Inr s5 \<Rightarrow> (case SpawnCommand env (cmd # rest) s5 of Inl fin \<Rightarrow> fin | Inr s6 \<Rightarrow> (Return 0, s6)))"
      by (simp add: m after_parse_def CHECK_sys entered_def)
    show ?thesis
    proof (cases "setgroups_passed env")
      case False
      then obtain e where e: "write_result (files env ''/proc/self/setgroups'') = Fail e" "e \<noteq> ENOENT"
        by (cases "write_result (files env ''/proc/self/setgroups'')") (auto simp: setgroups_passed_def)
      from Setup_failed [OF e, where uid = ?uid and gid = ?gid and s = ?s4] show ?thesis
        using setgroups_fail [OF parse un e] by (auto simp: m4)
    next
      case sg: True
      from Setup_passed [OF sg, of ?uid ?gid ?s4] obtain s1' where
        st: "SetupUserNamespace env ?uid ?gid ?s4 = map_and_elevate env ?uid ?gid s1'"
        and d1: "global_debug s1' = d" and t1: "trace s1' = entered env @ setgroups_events env"
        by auto
      show ?thesis
      proof (cases rule: map_and_elevate_cases [of env ?uid ?gid s1'])
        case (uid_fail e s')
        then show ?thesis
          using r_uid [OF parse un sg, of e]
          by (simp add: m4 st t1 uid_map_events_def)
      next
        case (gid_fail e s')
        then show ?thesis
          using r_gid [OF parse un sg, of e]
          by (simp add: m4 st t1 uid_map_events_def gid_map_events_def)
      next
        case (setresuid_fail e s')
        then show ?thesis
          using r_su [OF parse un sg, of e]
          by (simp add: m4 st t1 uid_map_events_def gid_map_events_def)
      next
        case (setresgid_fail e s')
        then show ?thesis
          using r_sg [OF parse un sg, of e]
          by (simp add: m4 st t1 uid_map_events_def gid_map_events_def)
      next
        case (elevated s')
        show ?thesis
        proof (cases "execvp_r env")
          case (Fail e)
          with elevated show ?thesis
            using exec_fail [OF parse un sg, of e]
            by (simp add: m4 st t1 d1 uid_map_events_def gid_map_events_def Spawn_eq)
        next
          case Ok
          with elevated show ?thesis
            using exec_ok [OF parse un sg]
            by (simp add: m4 st t1 d1 uid_map_events_def gid_map_events_def Spawn_eq)
        qed
      qed
    qed
  qed
qed
qed


text \<open>The shapes of the three writes.\<close>

lemma setgroups_shapes:
  "setgroups_passed env \<Longrightarrow>
     setgroups_events env = [Sys (Fopen ''/proc/self/setgroups'') Ok,
         Sys (Vfprintf ''/proc/self/setgroups'' ''deny'') Ok, Sys (Fclose ''/proc/self/setgroups'') Ok]
     \<or> setgroups_events env = [Sys (Fopen ''/proc/self/setgroups'') (Fail ENOENT)]
     \<or> setgroups_events env = [Sys (Fopen ''/proc/self/setgroups'') Ok,
         Sys (Vfprintf ''/proc/self/setgroups'' ''deny'') (Fail ENOENT)]
     \<or> setgroups_events env = [Sys (Fopen ''/proc/self/setgroups'') Ok,
         Sys (Vfprintf ''/proc/self/setgroups'' ''deny'') Ok, Sys (Fclose ''/proc/self/setgroups'') (Fail ENOENT)]"
  unfolding setgroups_passed_def setgroups_events_def
  using write_events_Ok write_events_Fail by blast

lemma setgroups_failed_shapes:
  "write_result (files env ''/proc/self/setgroups'') = Fail e \<Longrightarrow>
     setgroups_events env = [Sys (Fopen ''/proc/self/setgroups'') (Fail e)]
     \<or> setgroups_events env = [Sys (Fopen ''/proc/self/setgroups'') Ok,
         Sys (Vfprintf ''/proc/self/setgroups'' ''deny'') (Fail e)]
     \<or> setgroups_events env = [Sys (Fopen ''/proc/self/setgroups'') Ok,
         Sys (Vfprintf ''/proc/self/setgroups'' ''deny'') Ok, Sys (Fclose ''/proc/self/setgroups'') (Fail e)]"
  unfolding setgroups_events_def by (rule write_events_Fail)

lemma uid_map_ok:
  "write_result (files env ''/proc/self/uid_map'') = Ok \<Longrightarrow>
     uid_map_events env = [Sys (Fopen ''/proc/self/uid_map'') Ok,
         Sys (Vfprintf ''/proc/self/uid_map'' (map_line (sint (getuid_r env)))) Ok,
         Sys (Fclose ''/proc/self/uid_map'') Ok]"
  unfolding uid_map_events_def by (rule write_events_Ok)

lemma gid_map_ok:
  "write_result (files env ''/proc/self/gid_map'') = Ok \<Longrightarrow>
     gid_map_events env = [Sys (Fopen ''/proc/self/gid_map'') Ok,
         Sys (Vfprintf ''/proc/self/gid_map'' (map_line (sint (getgid_r env)))) Ok,
         Sys (Fclose ''/proc/self/gid_map'') Ok]"
  unfolding gid_map_events_def by (rule write_events_Ok)

lemma uid_map_failed_shapes:
  "write_result (files env ''/proc/self/uid_map'') = Fail e \<Longrightarrow>
     uid_map_events env = [Sys (Fopen ''/proc/self/uid_map'') (Fail e)]
     \<or> uid_map_events env = [Sys (Fopen ''/proc/self/uid_map'') Ok,
         Sys (Vfprintf ''/proc/self/uid_map'' (map_line (sint (getuid_r env)))) (Fail e)]
     \<or> uid_map_events env = [Sys (Fopen ''/proc/self/uid_map'') Ok,
         Sys (Vfprintf ''/proc/self/uid_map'' (map_line (sint (getuid_r env)))) Ok,
         Sys (Fclose ''/proc/self/uid_map'') (Fail e)]"
  unfolding uid_map_events_def by (rule write_events_Fail)

lemma gid_map_failed_shapes:
  "write_result (files env ''/proc/self/gid_map'') = Fail e \<Longrightarrow>
     gid_map_events env = [Sys (Fopen ''/proc/self/gid_map'') (Fail e)]
     \<or> gid_map_events env = [Sys (Fopen ''/proc/self/gid_map'') Ok,
         Sys (Vfprintf ''/proc/self/gid_map'' (map_line (sint (getgid_r env)))) (Fail e)]
     \<or> gid_map_events env = [Sys (Fopen ''/proc/self/gid_map'') Ok,
         Sys (Vfprintf ''/proc/self/gid_map'' (map_line (sint (getgid_r env)))) Ok,
         Sys (Fclose ''/proc/self/gid_map'') (Fail e)]"
  unfolding gid_map_events_def by (rule write_events_Fail)

lemma calls_debug_args [simp]: "calls (debug_args d a) = []"
  by (simp add: debug_args_def calls_map_Stderr) (simp add: calls_def)

lemma calls_Cons [simp]:
  "calls [] = []"
  "calls (Stderr m # t) = calls t"
  "calls (Sys c r # t) = Sys c r # calls t"
  "calls (Getuid u # t) = Getuid u # calls t"
  "calls (Getgid u # t) = Getgid u # calls t"
  by (simp_all add: calls_def)

lemma perror_text_ne [simp]: "perror_text env label e \<noteq> []"
  by (simp add: perror_text_def)

lemma write_events_only_calls [simp]:
  "stderr_text (write_events fe f t) = []"
  "calls (write_events fe f t) = write_events fe f t"
  "filter is_unshare (write_events fe f t) = []"
  "write_events fe f t \<noteq> []"
  by (simp_all add: write_events_def split: sysret.splits)

lemma stderr_text_debug_args [simp]:
  "stderr_text (debug_args d a) = (if d then concat (map (\<lambda>x. ''sandbox.c: arg: '' @ x @ ''\<newline>'') a) else [])"
  by (simp add: debug_args_def stderr_text_map_Stderr)

lemma filter_unshare_debug_args [simp]: "filter is_unshare (debug_args d a) = []"
  by (induction a) (auto simp: debug_args_def)

lemmas leaf_defs = run_calls_def run_outcome_def run_stderr_def calls_append stderr_text_append
  entered_def setgroups_events_def uid_map_events_def gid_map_events_def

lemma Execvp_not_written [simp]: "Sys (Execvp c a) r \<notin> set (write_events fe f t)"
  by (simp add: write_events_def split: sysret.splits)

lemma set_calls_debug_args [simp]: "set (calls (debug_args d a)) = {}"
  by simp

text \<open>The defining equations that evaluate a run on concrete arguments and answers.\<close>

lemmas run_defs =
  run_outcome_def run_stderr_def run_calls_def main_def ParseCommandLine_def
  ParseCommandLine_loop.simps getopt_def getopt_scan_def getopt_init_def NONOPTION_P_def
  initial_state_def Let_def CHECK_CALL_def sys_def good_env_def SetupUserNamespace_def
  WriteFile_def writable_def absent_def SpawnCommand_def perror_def fprintf_stderr_def
  PRINT_DEBUG_def Usage_def argv0_def calls_def ENOENT_def glibc_strerror_def wait_status_def
  label_setgroups_def label_map_def map_line_def dquote_def backslash_n_def fmt_d_def digit_def
  show_nat.simps
  CLONE_NEWNS_def CLONE_NEWUSER_def CLONE_NEWNET_def

section \<open>The exec stage\<close>

text \<open>
  C10. Whenever \<open>ParseCommandLine\<close> returns instead of ending the process, \<open>opt->args\<close>
  is a suffix of \<open>argv\<close> with at least one argument in it; so \<open>args[0]\<close>, which
  \<open>SpawnCommand\<close> dereferences and hands to \<open>execvp\<close>, is an argument and not the null
  pointer, in every run that reaches the exec stage: no run ends in \<open>Undefined\<close>, and every
  \<open>execvp\<close> issued has a non-empty vector, a suffix of \<open>argv\<close>, and its first element as
  the file.
\<close>

theorem ParseCommandLine_args_suffix:
  "(ParseCommandLine argv s = Inr (opt, s') \<longrightarrow> args opt \<noteq> [] \<and> (\<exists>pre. argv = pre @ args opt))
   \<and> run_outcome env argv \<noteq> Undefined
   \<and> (run_outcome env argv = Exec cmd a \<longrightarrow> a \<noteq> [] \<and> cmd = hd a)"
proof -
  have "ParseCommandLine argv s = Inr (opt, s') \<longrightarrow> args opt \<noteq> [] \<and> (\<exists>pre. argv = pre @ args opt)"
    using ParseCommandLine_Inr [of argv s opt s'] by blast
  moreover have "run_outcome env argv \<noteq> Undefined"
    using main_outcome [of env argv] by auto
  moreover have "run_outcome env argv = Exec cmd a \<longrightarrow> a \<noteq> [] \<and> cmd = hd a"
    using main_outcome [of env argv] by auto
  ultimately show ?thesis
    by blast
qed

theorem ParseCommandLine_args_suffix_witness:
  "ParseCommandLine [''tool'', ''-D'', ''--'', ''id'', ''-u''] initial_state
     = Inr (\<lparr>args = [''id'', ''-u'']\<rparr>, initial_state\<lparr>global_debug := True\<rparr>)
   \<and> [''id'', ''-u''] \<noteq> []
   \<and> (\<exists>pre. [''tool'', ''-D'', ''--'', ''id'', ''-u''] = pre @ [''id'', ''-u''])
   \<and> run_outcome good_env [''tool'', ''-D'', ''--'', ''id'', ''-u''] = Exec ''id'' [''id'', ''-u'']"
proof -
  have p: "ParseCommandLine [''tool'', ''-D'', ''--'', ''id'', ''-u''] initial_state
     = Inr (\<lparr>args = [''id'', ''-u'']\<rparr>, initial_state\<lparr>global_debug := True\<rparr>)"
    by (simp add: run_defs)
  have r: "run_outcome good_env [''tool'', ''-D'', ''--'', ''id'', ''-u''] = Exec ''id'' [''id'', ''-u'']"
    by (simp add: run_defs)
  from ParseCommandLine_args_suffix
         [of "[''tool'', ''-D'', ''--'', ''id'', ''-u'']" initial_state "\<lparr>args = [''id'', ''-u'']\<rparr>"
             "initial_state\<lparr>global_debug := True\<rparr>" good_env "''id''" "[''id'', ''-u'']"] p r
  show ?thesis
    by simp
qed

text \<open>
  C9. \<open>SpawnCommand\<close> never returns to its caller: called with a command vector, it ends
  either in the new process image or in \<open>exit(1)\<close> of the \<open>CHECK_CALL\<close> at line 102.
  Hence no run reaches \<open>exit(1)\<close> at line 104, which follows the debug print of line 103,
  and \<open>main\<close> never returns.
\<close>

theorem SpawnCommand_never_returns:
  "SpawnCommand env a s \<noteq> Inr s'
   \<and> (a \<noteq> [] \<longrightarrow> (\<exists>s1. SpawnCommand env a s = Inl (Exec (hd a) a, s1)
                           \<or> SpawnCommand env a s = Inl (Exit 102 1, s1)))
   \<and> wait_status 1 \<noteq> 0
   \<and> run_outcome env argv \<noteq> Exit 104 st
   \<and> run_outcome env argv \<noteq> Return n"
proof -
  have "a \<noteq> [] \<longrightarrow> (\<exists>s1. SpawnCommand env a s = Inl (Exec (hd a) a, s1)
                           \<or> SpawnCommand env a s = Inl (Exit 102 1, s1))"
    by (cases a) (auto simp: SpawnCommand_def CHECK_CALL_def sys_def Let_def split: sysret.splits)
  moreover have "run_outcome env argv \<noteq> Exit 104 st" "run_outcome env argv \<noteq> Return n"
    using main_outcome [of env argv] by auto
  ultimately show ?thesis
    by (simp add: Spawn_not_Inr wait_status_def)
qed

theorem SpawnCommand_never_returns_witness:
  "[''/nonexistent''] \<noteq> []
   \<and> SpawnCommand (good_env\<lparr>execvp_r := Fail ENOENT\<rparr>) [''/nonexistent''] initial_state
       = Inl (Exit 102 1,
              \<lparr>errno = 2, global_debug = False,
                 trace = [Sys (Execvp ''/nonexistent'' [''/nonexistent'']) (Fail 2),
                          Stderr ''execvp(argv[0], argv): No such file or directory\<newline>'']\<rparr>)
   \<and> SpawnCommand (good_env\<lparr>execvp_r := Fail ENOENT\<rparr>) [''/nonexistent''] initial_state
       \<noteq> Inr initial_state
   \<and> run_outcome (good_env\<lparr>execvp_r := Fail ENOENT\<rparr>) [''tool'', ''/nonexistent''] \<noteq> Return 0"
  using SpawnCommand_never_returns
          [of "good_env\<lparr>execvp_r := Fail ENOENT\<rparr>" "[''/nonexistent'']" initial_state initial_state
              "[''tool'', ''/nonexistent'']" 1 0]
  by (simp add: run_defs)

section \<open>Invocations without a command\<close>

lemma getopt_scan_step:
  assumes "getopt_scan '':D'' g = (c, g1)" and "nextchar g \<noteq> []" and "argv \<noteq> []"
    and "lacks_command_tail (drop (Suc (optind g)) argv)"
  shows "(c = 68 \<and> scan_open argv g1 \<and> pending argv g1 = pending argv g)
       \<or> (c = 63 \<and> pending argv g = Some (optopt g1, optind g1))"
  using assms
  by (cases "nextchar g")
     (auto simp: getopt_scan_def scan_open_def pending_def Let_def split: if_splits option.splits)

lemma getopt_step:
  assumes "scan_open argv g" and "getopt argv ''+:D'' g = (c, g1)"
  shows "(c = - 1 \<and> length argv \<le> optind g1 \<and> pending argv g = None)
       \<or> (c = 68 \<and> scan_open argv g1 \<and> pending argv g1 = pending argv g)
       \<or> (c = 63 \<and> pending argv g = Some (optopt g1, optind g1))"
proof (cases "nextchar g = []")
  case False
  with assms(1) have ne: "argv \<noteq> []" and rest: "lacks_command_tail (drop (Suc (optind g)) argv)"
    by (simp_all add: scan_open_def)
  from assms(2) ne False have "getopt_scan '':D'' g = (c, g1)"
    by (simp add: getopt_def)
  from getopt_scan_step [OF this False ne rest] show ?thesis
    by blast
next
  case True
  show ?thesis
  proof (cases "length argv \<le> optind g")
    case True
    with assms(2) \<open>nextchar g = []\<close> have "c = - 1" and "g1 = g"
      by (simp_all add: getopt_def Let_def split: if_splits)
    with True \<open>nextchar g = []\<close> show ?thesis
      by (simp add: pending_def)
  next
    case False
    then have ne: "argv \<noteq> []"
      by auto
    let ?a = "argv ! optind g"
    from False have d: "drop (optind g) argv = ?a # drop (Suc (optind g)) argv"
      by (simp add: Cons_nth_drop_Suc)
    with assms(1) True have oo: "lacks_command_tail (?a # drop (Suc (optind g)) argv)"
      by (simp add: scan_open_def)
    show ?thesis
    proof (cases "?a = ''--''")
      case True
      with oo have "drop (Suc (optind g)) argv = []"
        by simp
      then have "length argv \<le> Suc (optind g)"
        by simp
      with assms(2) ne \<open>nextchar g = []\<close> False True d show ?thesis
        by (auto simp: getopt_def pending_def)
    next
      case nd: False
      with oo have nn: "\<not> NONOPTION_P ?a" and rest: "lacks_command_tail (drop (Suc (optind g)) argv)"
        by simp_all
      from nn have tl: "tl ?a \<noteq> []"
        by (auto simp: NONOPTION_P_def split: list.splits)
      let ?g = "g\<lparr>nextchar := tl ?a\<rparr>"
      from assms(2) ne \<open>nextchar g = []\<close> False nd nn
      have s: "getopt_scan '':D'' ?g = (c, g1)"
        by (simp add: getopt_def)
      have p: "pending argv ?g = pending argv g"
        using tl True d nd nn by (simp add: pending_def split: option.splits)
      from getopt_scan_step [OF s _ ne, unfolded p] tl rest show ?thesis
        by simp
    qed
  qed
qed

lemma loop_open:
  "scan_open argv g \<Longrightarrow>
   (case pending argv g of
      None \<Rightarrow> \<exists>g' d. ParseCommandLine_loop argv g s = Inr (g', s\<lparr>global_debug := d\<rparr>)
                 \<and> length argv \<le> optind g'
    | Some (c, n) \<Rightarrow> \<exists>d. ParseCommandLine_loop argv g s
         = Inl (Usage argv (''Unrecognized argument: -'' @ [c] @ '' ('' @ fmt_d (int n) @ '')'')
                  (s\<lparr>global_debug := d\<rparr>)))"
proof (induction argv g s rule: ParseCommandLine_loop.induct)
  case (1 argv g s)
  obtain c g1 where go: "getopt argv ''+:D'' g = (c, g1)"
    by (cases "getopt argv ''+:D'' g")
  from getopt_step [OF "1.prems" go]
  consider "c = - 1" "length argv \<le> optind g1" "pending argv g = None"
    | "c = 68" "scan_open argv g1" "pending argv g1 = pending argv g"
    | "c = 63" "pending argv g = Some (optopt g1, optind g1)"
    by auto
  then show ?case
  proof cases
    case 1
    from go 1(1) have "ParseCommandLine_loop argv g s = Inr (g1, s\<lparr>global_debug := global_debug s\<rparr>)"
      by (subst ParseCommandLine_loop.simps) simp
    with 1(2,3) show ?thesis
      by (simp only: option.case) blast
  next
    case 2
    from go 2(1) have step: "ParseCommandLine_loop argv g s
        = ParseCommandLine_loop argv g1 (s\<lparr>global_debug := True\<rparr>)"
      by (subst ParseCommandLine_loop.simps) simp
    from "1.IH"(1) [OF go [symmetric] _ _ 2(2)] 2(1)
    have "(case pending argv g1 of
      None \<Rightarrow> \<exists>g' d. ParseCommandLine_loop argv g1 (s\<lparr>global_debug := True\<rparr>)
                 = Inr (g', s\<lparr>global_debug := True\<rparr>\<lparr>global_debug := d\<rparr>)
                 \<and> length argv \<le> optind g'
    | Some (c, n) \<Rightarrow> \<exists>d. ParseCommandLine_loop argv g1 (s\<lparr>global_debug := True\<rparr>)
         = Inl (Usage argv (''Unrecognized argument: -'' @ [c] @ '' ('' @ fmt_d (int n) @ '')'')
                  (s\<lparr>global_debug := True\<rparr>\<lparr>global_debug := d\<rparr>)))"
      by simp
    then show ?thesis
      unfolding step 2(3) by (auto split: option.splits)
  next
    case 3
    from go 3(1) have "ParseCommandLine_loop argv g s
        = Inl (Usage argv (''Unrecognized argument: -'' @ [optopt g1] @ '' ('' @ fmt_d (int (optind g1)) @ '')'')
                 (s\<lparr>global_debug := global_debug s\<rparr>))"
      by (subst ParseCommandLine_loop.simps) simp
    with 3(2) show ?thesis
      by (simp only: option.case prod.case) blast
  qed
qed

lemma lacks_command_parse:
  assumes "lacks_command argv"
  shows "\<exists>d. ParseCommandLine argv initial_state
           = Inl (Usage argv (usage_message argv) (initial_state\<lparr>global_debug := d\<rparr>))"
proof -
  from assms have so: "scan_open argv getopt_init"
    by (auto simp: lacks_command_def scan_open_def getopt_init_def split: list.splits)
  have p: "pending argv getopt_init = first_unknown 1 (tl argv)"
    by (cases argv) (simp_all add: pending_def getopt_init_def drop_Suc)
  show ?thesis
  proof (cases "first_unknown 1 (tl argv)")
    case None
    with loop_open [OF so, of initial_state] p obtain g' d where
      "ParseCommandLine_loop argv getopt_init initial_state = Inr (g', initial_state\<lparr>global_debug := d\<rparr>)"
      "length argv \<le> optind g'"
      by auto
    with None show ?thesis
      by (auto simp: ParseCommandLine_def usage_message_def Let_def)
  next
    case (Some x)
    obtain c n where x: "x = (c, n)"
      by (cases x)
    with Some loop_open [OF so, of initial_state] p obtain d where
      "ParseCommandLine_loop argv getopt_init initial_state
         = Inl (Usage argv (''Unrecognized argument: -'' @ [c] @ '' ('' @ fmt_d (int n) @ '')'')
                  (initial_state\<lparr>global_debug := d\<rparr>))"
      by auto
    with Some x show ?thesis
      by (auto simp: ParseCommandLine_def usage_message_def)
  qed
qed

text \<open>
  C5, as the code has it. For every invocation whose argument list has no command after
  the options, the launcher exits with status 1 without having issued any call (no
  \<open>getuid\<close>, no \<open>unshare\<close>, no pseudo-file write, no credential call), and standard
  error holds a usage message: one line, then the synopsis, the arguments as they were
  provided, and the help text. The line is \<^verbatim>\<open>No command specified\<close> when every option
  letter is \<^verbatim>\<open>D\<close>; otherwise it is \<^verbatim>\<open>Unrecognized argument: -c (n)\<close> for the first
  option letter \<open>c\<close> that is not \<^verbatim>\<open>D\<close>, with the value \<open>n\<close> of \<open>optind\<close>.
\<close>

theorem no_command_usage:
  assumes "lacks_command argv"
  shows "run_outcome env argv = Exit 165 1 \<and> wait_status 1 \<noteq> 0 \<and> run_calls env argv = []
    \<and> run_stderr env argv = usage_message argv
     @ ''\<newline>Create a new empty network namespace(plus user namespace) for testing\<newline>Usage: ''
     @ argv0 argv @ '' [-C|--] command arg1\<newline>  provided:''
     @ concat (map (\<lambda>a. '' '' @ a) argv)
     @ ''\<newline>Mandatory arguments:\<newline>  [--] command to run inside sandbox, followed by arguments\<newline>\<newline>Optional arguments:\<newline>  -D if set, debug info will be printed\<newline>''"
proof -
  from lacks_command_parse [OF assms] obtain d where
    p: "ParseCommandLine argv initial_state
           = Inl (Usage argv (usage_message argv) (initial_state\<lparr>global_debug := d\<rparr>))" ..
  then have m: "main env argv = Usage argv (usage_message argv) (initial_state\<lparr>global_debug := d\<rparr>)"
    by (simp add: main_def)
  have "run_outcome env argv = Exit 165 1"
    by (simp add: run_outcome_def m Usage_outcome)
  moreover have "run_calls env argv = []"
    by (simp add: run_calls_def m Usage_calls) (simp add: initial_state_def calls_def)
  moreover have "run_stderr env argv = usage_message argv
     @ ''\<newline>Create a new empty network namespace(plus user namespace) for testing\<newline>Usage: ''
     @ argv0 argv @ '' [-C|--] command arg1\<newline>  provided:''
     @ concat (map (\<lambda>a. '' '' @ a) argv)
     @ ''\<newline>Mandatory arguments:\<newline>  [--] command to run inside sandbox, followed by arguments\<newline>\<newline>Optional arguments:\<newline>  -D if set, debug info will be printed\<newline>''"
    by (simp add: run_stderr_def m Usage_stderr initial_state_def)
  ultimately show ?thesis
    by (simp add: wait_status_def)
qed

theorem no_command_usage_witness:
  "lacks_command [''tool'', ''-D'']
   \<and> run_outcome good_env [''tool'', ''-D''] = Exit 165 1
   \<and> run_calls good_env [''tool'', ''-D''] = []
   \<and> run_stderr good_env [''tool'', ''-D''] =
       ''No command specified\<newline>Create a new empty network namespace(plus user namespace) for testing\<newline>Usage: tool [-C|--] command arg1\<newline>  provided: tool -D\<newline>Mandatory arguments:\<newline>  [--] command to run inside sandbox, followed by arguments\<newline>\<newline>Optional arguments:\<newline>  -D if set, debug info will be printed\<newline>''"
proof -
  have l: "lacks_command [''tool'', ''-D'']"
    by (simp add: lacks_command_def NONOPTION_P_def)
  from no_command_usage [OF l, of good_env] l show ?thesis
    by (simp add: argv0_def usage_message_def NONOPTION_P_def)
qed

text \<open>An invocation without a command whose usage message is not
  \<^verbatim>\<open>No command specified\<close>: the only argument is the unknown option \<^verbatim>\<open>-Z\<close>.\<close>

theorem no_command_usage_counterexample:
  "lacks_command [''tool'', ''-Z'']
   \<and> run_outcome good_env [''tool'', ''-Z''] = Exit 165 1
   \<and> run_calls good_env [''tool'', ''-Z''] = []
   \<and> run_stderr good_env [''tool'', ''-Z''] =
       ''Unrecognized argument: -Z (2)\<newline>Create a new empty network namespace(plus user namespace) for testing\<newline>Usage: tool [-C|--] command arg1\<newline>  provided: tool -Z\<newline>Mandatory arguments:\<newline>  [--] command to run inside sandbox, followed by arguments\<newline>\<newline>Optional arguments:\<newline>  -D if set, debug info will be printed\<newline>''
   \<and> \<not> mentions ''No command specified'' (run_stderr good_env [''tool'', ''-Z''])"
  by (simp add: run_defs lacks_command_def NONOPTION_P_def)

section \<open>The order of the stages\<close>

lemma run_calls_checked:
  "each_preceded is_map_write (Sys (Unshare (CLONE_NEWNS OR CLONE_NEWUSER OR CLONE_NEWNET)) Ok) (run_calls env argv)
   \<and> each_preceded is_cred (Sys (Fclose ''/proc/self/uid_map'') Ok) (run_calls env argv)
   \<and> each_preceded is_cred (Sys (Fclose ''/proc/self/gid_map'') Ok) (run_calls env argv)
   \<and> stops_at stage_failure (run_calls env argv)"
proof (cases rule: main_cases [of argv env])
  case (usage fin)
  then show ?thesis by (simp add: run_calls_def)
next
  case (unshare_fail cmd rest d e)
  then show ?thesis
    by (simp add: run_calls_def stage_failure_def is_map_write_def)
next
  case (setgroups_fail cmd rest d e)
  then show ?thesis
    by (auto simp: run_calls_def calls_append entered_def stage_failure_def is_map_write_def
        dest!: setgroups_failed_shapes)
next
  case (uid_fail cmd rest d e)
  then show ?thesis
    by (auto simp: run_calls_def calls_append entered_def stage_failure_def is_map_write_def
        dest!: setgroups_shapes uid_map_failed_shapes)
next
  case (gid_fail cmd rest d e)
  then show ?thesis
    by (auto simp: run_calls_def calls_append entered_def stage_failure_def is_map_write_def uid_map_ok
        dest!: setgroups_shapes gid_map_failed_shapes)
next
  case (setresuid_fail cmd rest d e)
  then show ?thesis
    by (auto simp: run_calls_def calls_append entered_def stage_failure_def is_map_write_def uid_map_ok gid_map_ok
        dest!: setgroups_shapes)
next
  case (setresgid_fail cmd rest d e)
  then show ?thesis
    by (auto simp: run_calls_def calls_append entered_def stage_failure_def is_map_write_def uid_map_ok gid_map_ok
        dest!: setgroups_shapes)
next
  case (exec_fail cmd rest d e)
  then show ?thesis
    by (auto simp: run_calls_def calls_append entered_def stage_failure_def is_map_write_def uid_map_ok gid_map_ok
        dest!: setgroups_shapes)
next
  case (exec_ok cmd rest d)
  then show ?thesis
    by (auto simp: run_calls_def calls_append entered_def stage_failure_def is_map_write_def uid_map_ok gid_map_ok
        dest!: setgroups_shapes)
qed


text \<open>
  C3. In every run, a call on the UID-mapping or GID-mapping pseudo-file (\<open>fopen\<close>,
  \<open>vfprintf\<close> or \<open>fclose\<close>) is issued only after \<open>unshare\<close> has returned success, and
  \<open>setresuid\<close> and \<open>setresgid\<close> are issued only after both mapping files have been
  written and closed with success (\<open>fclose\<close> is reached only when \<open>fopen\<close> and \<open>vfprintf\<close>
  succeeded, so its success is the success of the write). A failed call of any of these
  stages is the last call of the run.
\<close>

theorem call_ordering:
  assumes "run_calls env argv = pre @ c # post"
  shows "(is_map_write c \<longrightarrow> Sys (Unshare (CLONE_NEWNS OR CLONE_NEWUSER OR CLONE_NEWNET)) Ok \<in> set pre)
       \<and> (is_cred c \<longrightarrow> Sys (Fclose ''/proc/self/uid_map'') Ok \<in> set pre
                        \<and> Sys (Fclose ''/proc/self/gid_map'') Ok \<in> set pre)
       \<and> (is_failure c \<and> (is_unshare c \<or> is_map_write c \<or> is_cred c) \<longrightarrow> post = [])"
proof -
  note chk = run_calls_checked [of env argv]
  have "is_map_write c \<longrightarrow> Sys (Unshare (CLONE_NEWNS OR CLONE_NEWUSER OR CLONE_NEWNET)) Ok \<in> set pre"
    using chk assms each_precededD [of is_map_write _ "run_calls env argv" pre c post]
    by (auto simp: is_map_write_def)
  moreover have "is_cred c \<longrightarrow> Sys (Fclose ''/proc/self/uid_map'') Ok \<in> set pre
                        \<and> Sys (Fclose ''/proc/self/gid_map'') Ok \<in> set pre"
    using chk assms each_precededD [of is_cred _ "run_calls env argv" pre c post]
    by auto
  moreover have "is_failure c \<and> (is_unshare c \<or> is_map_write c \<or> is_cred c) \<longrightarrow> post = []"
    using chk assms stops_atD [of stage_failure "run_calls env argv" pre c post]
    by (auto simp: stage_failure_def)
  ultimately show ?thesis
    by blast
qed

theorem call_ordering_witness:
  "run_calls (good_env\<lparr>setresuid_r := Fail 1\<rparr>) [''tool'', ''ls'']
     = [Getuid 1000, Getgid 1000, Sys (Unshare (CLONE_NEWNS OR CLONE_NEWUSER OR CLONE_NEWNET)) Ok,
        Sys (Fopen ''/proc/self/setgroups'') Ok, Sys (Vfprintf ''/proc/self/setgroups'' ''deny'') Ok,
        Sys (Fclose ''/proc/self/setgroups'') Ok,
        Sys (Fopen ''/proc/self/uid_map'') Ok, Sys (Vfprintf ''/proc/self/uid_map'' ''0 1000 1\<newline>'') Ok,
        Sys (Fclose ''/proc/self/uid_map'') Ok,
        Sys (Fopen ''/proc/self/gid_map'') Ok, Sys (Vfprintf ''/proc/self/gid_map'' ''0 1000 1\<newline>'') Ok,
        Sys (Fclose ''/proc/self/gid_map'') Ok] @ Sys (Setresuid 0 0 0) (Fail 1) # []
   \<and> is_cred (Sys (Setresuid 0 0 0) (Fail 1)) \<and> is_failure (Sys (Setresuid 0 0 0) (Fail 1))
   \<and> is_map_write (Sys (Fopen ''/proc/self/uid_map'') Ok)"
proof -
  have r: "run_calls (good_env\<lparr>setresuid_r := Fail 1\<rparr>) [''tool'', ''ls'']
     = [Getuid 1000, Getgid 1000, Sys (Unshare (CLONE_NEWNS OR CLONE_NEWUSER OR CLONE_NEWNET)) Ok,
        Sys (Fopen ''/proc/self/setgroups'') Ok, Sys (Vfprintf ''/proc/self/setgroups'' ''deny'') Ok,
        Sys (Fclose ''/proc/self/setgroups'') Ok,
        Sys (Fopen ''/proc/self/uid_map'') Ok, Sys (Vfprintf ''/proc/self/uid_map'' ''0 1000 1\<newline>'') Ok,
        Sys (Fclose ''/proc/self/uid_map'') Ok,
        Sys (Fopen ''/proc/self/gid_map'') Ok, Sys (Vfprintf ''/proc/self/gid_map'' ''0 1000 1\<newline>'') Ok,
        Sys (Fclose ''/proc/self/gid_map'') Ok] @ Sys (Setresuid 0 0 0) (Fail 1) # []"
    by (simp add: run_defs)
  from call_ordering [OF r] r show ?thesis
    by (simp add: is_map_write_def)
qed


section \<open>Namespace creation\<close>





section \<open>Exit status\<close>

text \<open>
  C2, as the code has it. A run ends in the new process image or in \<open>exit\<close>. When it ends in
  \<open>exit\<close>, the last thing written to the trace is a message on standard error, and the
  status is not zero: it is 1 when no call was issued at all (a usage error), and otherwise
  the last call issued is a failed call and the status is 255 when that call was on the
  group-override control file (the \<open>exit(-1)\<close> of line 130), and 1 for every other call:
  \<open>unshare\<close>, the mapping writes, \<open>setresuid\<close>, \<open>setresgid\<close> and \<open>execvp\<close> all end in the
  \<open>exit(1)\<close> of \<open>CHECK_CALL\<close>.
\<close>

theorem exit_status_pattern:
  "(\<exists>cmd a. run_outcome env argv = Exec cmd a)
   \<or> (\<exists>l n. run_outcome env argv = Exit l n
         \<and> trace (snd (main env argv)) \<noteq> []
         \<and> (\<exists>m. m \<noteq> [] \<and> last (trace (snd (main env argv))) = Stderr m)
         \<and> (run_calls env argv = [] \<and> wait_status n = 1
            \<or> run_calls env argv \<noteq> []
              \<and> is_failure (last (run_calls env argv))
              \<and> wait_status n = (if file_of (last (run_calls env argv)) = Some ''/proc/self/setgroups''
                                 then 255 else 1)))"
proof (cases rule: main_cases [of argv env])
  case (usage fin)
  then show ?thesis
    by (auto simp: run_calls_def run_outcome_def wait_status_def)
next
  case (unshare_fail cmd rest d e)
  then show ?thesis
    by (simp add: leaf_defs wait_status_def)
next
  case (setgroups_fail cmd rest d e)
  then show ?thesis
    by (auto simp: run_calls_def run_outcome_def calls_append entered_def wait_status_def
        dest!: setgroups_failed_shapes)
next
  case (uid_fail cmd rest d e)
  then show ?thesis
    by (auto simp: run_calls_def run_outcome_def calls_append setgroups_events_def wait_status_def
        dest!: uid_map_failed_shapes)
next
  case (gid_fail cmd rest d e)
  then show ?thesis
    by (auto simp: run_calls_def run_outcome_def calls_append setgroups_events_def uid_map_events_def
        wait_status_def dest!: gid_map_failed_shapes)
next
  case (setresuid_fail cmd rest d e)
  then show ?thesis
    by (simp add: leaf_defs wait_status_def)
next
  case (setresgid_fail cmd rest d e)
  then show ?thesis
    by (simp add: leaf_defs wait_status_def)
next
  case (exec_fail cmd rest d e)
  then show ?thesis
    by (simp add: leaf_defs wait_status_def)
next
  case (exec_ok cmd rest d)
  then show ?thesis
    by (simp add: run_outcome_def)
qed


theorem exit_status_pattern_witness:
  "run_outcome (good_env\<lparr>files := (files good_env)(''/proc/self/setgroups'' := writable\<lparr>fopen_r := Fail 13\<rparr>)\<rparr>)
      [''tool'', ''ls''] = Exit 130 (- 1)
   \<and> wait_status (- 1) = 255
   \<and> run_calls (good_env\<lparr>files := (files good_env)(''/proc/self/setgroups'' := writable\<lparr>fopen_r := Fail 13\<rparr>)\<rparr>)
        [''tool'', ''ls'']
       = [Getuid 1000, Getgid 1000, Sys (Unshare (CLONE_NEWNS OR CLONE_NEWUSER OR CLONE_NEWNET)) Ok,
          Sys (Fopen ''/proc/self/setgroups'') (Fail 13)]
   \<and> run_outcome (good_env\<lparr>setresgid_r := Fail 1\<rparr>) [''tool'', ''ls''] = Exit 138 1
   \<and> wait_status 1 = 1"
proof -
  let ?E = "good_env\<lparr>files := (files good_env)(''/proc/self/setgroups'' := writable\<lparr>fopen_r := Fail 13\<rparr>)\<rparr>"
  have 1: "run_outcome ?E [''tool'', ''ls''] = Exit 130 (- 1)"
    by (simp add: run_defs)
  have 2: "run_calls ?E [''tool'', ''ls'']
       = [Getuid 1000, Getgid 1000, Sys (Unshare (CLONE_NEWNS OR CLONE_NEWUSER OR CLONE_NEWNET)) Ok,
          Sys (Fopen ''/proc/self/setgroups'') (Fail 13)]"
    by (simp add: run_defs)
  have 3: "run_outcome (good_env\<lparr>setresgid_r := Fail 1\<rparr>) [''tool'', ''ls''] = Exit 138 1"
    by (simp add: run_defs)
  from exit_status_pattern [of ?E "[''tool'', ''ls'']"]
       exit_status_pattern [of "good_env\<lparr>setresgid_r := Fail 1\<rparr>" "[''tool'', ''ls'']"] 1 2 3
  show ?thesis
    by (simp add: wait_status_def)
qed

text \<open>The claim as stated gives 255 to a failure of namespace creation; the status is 1.\<close>

theorem exit_status_counterexample:
  "last (run_calls (good_env\<lparr>unshare_r := Fail 1\<rparr>) [''tool'', ''ls''])
     = Sys (Unshare (CLONE_NEWNS OR CLONE_NEWUSER OR CLONE_NEWNET)) (Fail 1)
   \<and> exit_status (run_outcome (good_env\<lparr>unshare_r := Fail 1\<rparr>) [''tool'', ''ls'']) = Some 1
   \<and> exit_status (run_outcome (good_env\<lparr>unshare_r := Fail 1\<rparr>) [''tool'', ''ls'']) \<noteq> Some 255"
  by (simp add: run_defs)

section \<open>Exec failure\<close>





section \<open>The pseudo-file writes\<close>

lemma opened_append: "opened (a @ b) = opened a @ opened b"
  by (induction a rule: opened.induct) auto

lemma payloads_append: "payloads (a @ b) = payloads a @ payloads b"
  by (induction a rule: payloads.induct) auto

lemma write_events_files [simp]:
  "opened (write_events fe f t) = [f]"
  "payloads (write_events fe f t) = (if fopen_r fe = Ok then [(f, t)] else [])"
  by (simp_all add: write_events_def split: sysret.splits)

lemma debug_args_files [simp]:
  "opened (calls (debug_args d a)) = []" "payloads (calls (debug_args d a)) = []"
  by simp_all

lemma sint_nonneg:
  fixes u :: "32 word"
  assumes "0 \<le> sint u"
  shows "sint u = int (unat u)"
proof -
  have "sint u < 2 ^ 31"
    using sint_lt [of u] by simp
  also have "(2::int) ^ 31 \<le> 2 ^ 32"
    by simp
  finally have less: "sint u < 2 ^ 32" .
  have "uint u = take_bit 32 (sint u)"
    using uint_sint [of u] by simp
  also have "\<dots> = sint u"
    using assms less by (rule take_bit_int_eq_self)
  finally have "sint u = uint u" ..
  also have "\<dots> = int (unat u)"
    by (rule uint_nat)
  finally show ?thesis .
qed

lemma fmt_d_nonneg:
  fixes u :: "32 word"
  assumes "\<not> sint u < 0"
  shows "fmt_d (sint u) = show_nat (unat u)"
proof -
  from assms have "0 \<le> sint u"
    by simp
  from sint_nonneg [OF this] show ?thesis
    by (simp add: fmt_d_def)
qed

lemma ids_printed:
  assumes "rejects_negative_ids env"
    and "write_result (files env ''/proc/self/uid_map'') = Ok"
    and "write_result (files env ''/proc/self/gid_map'') = Ok"
  shows "fmt_d (sint (getuid_r env)) = show_nat (unat (getuid_r env))
       \<and> fmt_d (sint (getgid_r env)) = show_nat (unat (getgid_r env))"
  using assms by (auto simp: rejects_negative_ids_def intro: fmt_d_nonneg)

lemma map_opened:
  "write_result fe = Ok \<Longrightarrow> fopen_r fe = Ok"
  by (simp add: write_result_def split: sysret.splits)

lemma setgroups_opened:
  "setgroups_passed env \<Longrightarrow>
     fopen_r (files env ''/proc/self/setgroups'') = Ok
     \<or> fopen_r (files env ''/proc/self/setgroups'') = Fail ENOENT"
  by (auto simp: setgroups_passed_def write_result_def split: sysret.splits)

text \<open>
  C6, as the code has it. In every run that reaches the exec stage the launcher opens
  exactly three pseudo-files for writing, in this order: the group-override control file,
  the UID-mapping file and the GID-mapping file. It hands \<^verbatim>\<open>deny\<close> to the first, unless
  that file could not be opened, which then failed with \<open>ENOENT\<close> and is tolerated; then
  \<^verbatim>\<open>0 <uid> 1\<close> and a newline to the second and \<^verbatim>\<open>0 <gid> 1\<close> and a newline to the
  third, the ids being what \<^verbatim>\<open>%d\<close> prints for the caller's real ids held in an
  \<open>int\<close>. Under a kernel that refuses a mapping line with a negative id these are the
  caller's real UID and GID in decimal.
\<close>

theorem mapping_writes:
  assumes "Sys (Execvp cmd a) r \<in> set (run_calls env argv)"
  shows "opened (run_calls env argv) = [''/proc/self/setgroups'', ''/proc/self/uid_map'', ''/proc/self/gid_map'']
       \<and> payloads (run_calls env argv) =
           (if fopen_r (files env ''/proc/self/setgroups'') = Ok
            then [(''/proc/self/setgroups'', ''deny'')] else [])
           @ [(''/proc/self/uid_map'', ''0 '' @ fmt_d (sint (getuid_r env)) @ '' 1\<newline>''),
              (''/proc/self/gid_map'', ''0 '' @ fmt_d (sint (getgid_r env)) @ '' 1\<newline>'')]
       \<and> (fopen_r (files env ''/proc/self/setgroups'') = Ok
            \<or> fopen_r (files env ''/proc/self/setgroups'') = Fail ENOENT)
       \<and> (rejects_negative_ids env \<longrightarrow>
            fmt_d (sint (getuid_r env)) = show_nat (unat (getuid_r env))
            \<and> fmt_d (sint (getgid_r env)) = show_nat (unat (getgid_r env)))"
  using assms
  by (cases rule: main_cases [of argv env])
     (auto simp: leaf_defs opened_append payloads_append map_line_def
        dest: setgroups_opened map_opened ids_printed)

theorem mapping_writes_witness:
  "Sys (Execvp ''id'' [''id'', ''-u'']) Ok \<in> set (run_calls good_env [''tool'', ''--'', ''id'', ''-u''])
   \<and> rejects_negative_ids good_env
   \<and> opened (run_calls good_env [''tool'', ''--'', ''id'', ''-u''])
       = [''/proc/self/setgroups'', ''/proc/self/uid_map'', ''/proc/self/gid_map'']
   \<and> payloads (run_calls good_env [''tool'', ''--'', ''id'', ''-u''])
       = [(''/proc/self/setgroups'', ''deny''), (''/proc/self/uid_map'', ''0 1000 1\<newline>''),
          (''/proc/self/gid_map'', ''0 1000 1\<newline>'')]"
proof -
  have m: "Sys (Execvp ''id'' [''id'', ''-u'']) Ok \<in> set (run_calls good_env [''tool'', ''--'', ''id'', ''-u''])"
    by (simp add: run_defs)
  have k: "rejects_negative_ids good_env"
    by (simp add: rejects_negative_ids_def good_env_def)
  have n: "show_nat 1000 = ''1000''"
    by (simp add: show_nat.simps digit_def)
  from mapping_writes [OF m] m k n show ?thesis
    by (simp add: good_env_def writable_def)
qed

text \<open>A setup that succeeds with two writes: the caller has the real UID and GID 1000,
  and the control file does not exist.\<close>

theorem mapping_writes_counterexample:
  "run_outcome (good_env\<lparr>files := (files good_env)(''/proc/self/setgroups'' := absent)\<rparr>)
      [''tool'', ''ls''] = Exec ''ls'' [''ls'']
   \<and> unat (getuid_r good_env) = 1000
   \<and> payloads (run_calls
        (good_env\<lparr>files := (files good_env)(''/proc/self/setgroups'' := absent)\<rparr>)
        [''tool'', ''ls''])
       = [(''/proc/self/uid_map'', ''0 1000 1\<newline>''), (''/proc/self/gid_map'', ''0 1000 1\<newline>'')]"
  by (simp add: run_defs)


section \<open>The tolerated absence of the control file\<close>

text \<open>What a run prints and how it ends depends on the answers of the operating system only
  through the results of the stages, and not on how the write to the control file passed.\<close>

lemma observable_eq:
  assumes "unshare_r e1 = unshare_r e2"
    and "setgroups_passed e1" and "setgroups_passed e2"
    and "write_result (files e1 ''/proc/self/uid_map'') = write_result (files e2 ''/proc/self/uid_map'')"
    and "write_result (files e1 ''/proc/self/gid_map'') = write_result (files e2 ''/proc/self/gid_map'')"
    and "setresuid_r e1 = setresuid_r e2" and "setresgid_r e1 = setresgid_r e2"
    and "execvp_r e1 = execvp_r e2" and "strerror e1 = strerror e2"
  shows "run_stderr e1 argv = run_stderr e2 argv \<and> run_outcome e1 argv = run_outcome e2 argv"
proof (cases rule: main_cases [of argv e1])
  case (usage fin)
  then show ?thesis
    using assms
    by (cases rule: main_cases [of argv e2]) (auto simp: leaf_defs setgroups_passed_def)
next
  case (unshare_fail cmd rest d e)
  then show ?thesis
    using assms
    by (cases rule: main_cases [of argv e2]) (auto simp: leaf_defs perror_text_def setgroups_passed_def)
next
  case (setgroups_fail cmd rest d e)
  then show ?thesis
    using assms by (simp add: setgroups_passed_def)
next
  case (uid_fail cmd rest d e)
  then show ?thesis
    using assms
    by (cases rule: main_cases [of argv e2]) (auto simp: leaf_defs perror_text_def setgroups_passed_def)
next
  case (gid_fail cmd rest d e)
  then show ?thesis
    using assms
    by (cases rule: main_cases [of argv e2]) (auto simp: leaf_defs perror_text_def setgroups_passed_def)
next
  case (setresuid_fail cmd rest d e)
  then show ?thesis
    using assms
    by (cases rule: main_cases [of argv e2]) (auto simp: leaf_defs perror_text_def setgroups_passed_def)
next
  case (setresgid_fail cmd rest d e)
  then show ?thesis
    using assms
    by (cases rule: main_cases [of argv e2]) (auto simp: leaf_defs perror_text_def setgroups_passed_def)
next
  case (exec_fail cmd rest d e)
  then show ?thesis
    using assms
    by (cases rule: main_cases [of argv e2]) (auto simp: leaf_defs perror_text_def setgroups_passed_def)
next
  case (exec_ok cmd rest d)
  then show ?thesis
    using assms
    by (cases rule: main_cases [of argv e2]) (auto simp: leaf_defs perror_text_def setgroups_passed_def)
qed

text \<open>
  C8. Two runs with the same arguments and the same answers of the operating system,
  except that in one the group-override control file does not exist (\<open>fopen\<close> fails with
  \<open>ENOENT\<close>) and in the other it is there and can be written, write the same text to
  standard error and end the same way, with the same exit status if they end in \<open>exit\<close>.
\<close>

theorem absent_control_file_unobservable:
  "run_stderr (env\<lparr>files := (files env)(''/proc/self/setgroups'' := absent)\<rparr>) argv
     = run_stderr (env\<lparr>files := (files env)(''/proc/self/setgroups'' := writable)\<rparr>) argv
   \<and> run_outcome (env\<lparr>files := (files env)(''/proc/self/setgroups'' := absent)\<rparr>) argv
     = run_outcome (env\<lparr>files := (files env)(''/proc/self/setgroups'' := writable)\<rparr>) argv
   \<and> exit_status (run_outcome (env\<lparr>files := (files env)(''/proc/self/setgroups'' := absent)\<rparr>) argv)
     = exit_status (run_outcome (env\<lparr>files := (files env)(''/proc/self/setgroups'' := writable)\<rparr>) argv)"
proof -
  have "run_stderr (env\<lparr>files := (files env)(''/proc/self/setgroups'' := absent)\<rparr>) argv
     = run_stderr (env\<lparr>files := (files env)(''/proc/self/setgroups'' := writable)\<rparr>) argv
   \<and> run_outcome (env\<lparr>files := (files env)(''/proc/self/setgroups'' := absent)\<rparr>) argv
     = run_outcome (env\<lparr>files := (files env)(''/proc/self/setgroups'' := writable)\<rparr>) argv"
    by (rule observable_eq)
       (simp_all add: setgroups_passed_def write_result_def absent_def writable_def)
  then show ?thesis
    by simp
qed

theorem absent_control_file_unobservable_witness:
  "run_stderr (good_env\<lparr>setresuid_r := Fail 1\<rparr>\<lparr>files := (files (good_env\<lparr>setresuid_r := Fail 1\<rparr>))
        (''/proc/self/setgroups'' := absent)\<rparr>) [''tool'', ''ls'']
     = ''setresuid(0, 0, 0): Operation not permitted\<newline>''
   \<and> run_stderr (good_env\<lparr>setresuid_r := Fail 1\<rparr>\<lparr>files := (files (good_env\<lparr>setresuid_r := Fail 1\<rparr>))
        (''/proc/self/setgroups'' := writable)\<rparr>) [''tool'', ''ls'']
     = ''setresuid(0, 0, 0): Operation not permitted\<newline>''
   \<and> run_outcome (good_env\<lparr>setresuid_r := Fail 1\<rparr>\<lparr>files := (files (good_env\<lparr>setresuid_r := Fail 1\<rparr>))
        (''/proc/self/setgroups'' := writable)\<rparr>) [''tool'', ''ls''] = Exit 137 1"
proof -
  let ?E = "good_env\<lparr>setresuid_r := Fail 1\<rparr>"
  have a: "run_stderr (?E\<lparr>files := (files ?E)(''/proc/self/setgroups'' := absent)\<rparr>) [''tool'', ''ls'']
     = ''setresuid(0, 0, 0): Operation not permitted\<newline>''"
    by (simp add: run_defs)
  have b: "run_outcome (?E\<lparr>files := (files ?E)(''/proc/self/setgroups'' := absent)\<rparr>) [''tool'', ''ls'']
     = Exit 137 1"
    by (simp add: run_defs)
  from absent_control_file_unobservable [of ?E "[''tool'', ''ls'']"] a b show ?thesis
    by simp
qed


section \<open>Failures in the identity remapper\<close>

lemma failures_handledD:
  "failures_handled env t \<Longrightarrow> t = pre @ Sys c (Fail e) # post \<Longrightarrow>
     (if file_of (Sys c (Fail e)) = Some ''/proc/self/setgroups'' \<and> e = ENOENT
      then (\<exists>r post'. post = Sys (Fopen ''/proc/self/uid_map'') r # post')
      else (\<exists>label. post = [Stderr (perror_text env label e)]))"
proof (induction env t arbitrary: pre rule: failures_handled.induct)
  case (2 env c' e' post')
  show ?case
  proof (cases pre)
    case Nil
    with 2 show ?thesis by (auto split: if_splits)
  next
    case (Cons x pre')
    with "2.prems" have tl: "post' = pre' @ Sys c (Fail e) # post"
      by simp
    show ?thesis
    proof (cases "file_of (Sys c' (Fail e')) = Some ''/proc/self/setgroups'' \<and> e' = ENOENT")
      case True
      then have "file_of (Sys c' (Fail e')) = Some ''/proc/self/setgroups''" and "e' = ENOENT"
        by blast+
      with "2.prems"(1) have "failures_handled env post'"
        by (simp del: file_of.simps)
      from "2.IH" [OF True this tl] show ?thesis .
    next
      case False
      with "2.prems"(1) obtain label where "post' = [Stderr (perror_text env label e')]"
        by auto
      with tl show ?thesis
        by (auto simp: Cons_eq_append_conv)
    qed
  qed
qed (auto simp: Cons_eq_append_conv)

lemma Setup_events:
  "\<exists>evs. trace (final (SetupUserNamespace env uid gid s)) = trace s @ evs
     \<and> failures_handled env evs
     \<and> ((\<exists>l n s'. SetupUserNamespace env uid gid s = Inl (Exit l n, s') \<and> wait_status n \<noteq> 0)
        \<or> stderr_text evs = [])"
proof (cases "setgroups_passed env")
  case False
  then obtain e where e: "write_result (files env ''/proc/self/setgroups'') = Fail e" "e \<noteq> ENOENT"
    by (cases "write_result (files env ''/proc/self/setgroups'')") (auto simp: setgroups_passed_def)
  from Setup_failed [OF e, where uid = uid and gid = gid and s = s] e show ?thesis
    by (auto simp: final_def wait_status_def dest!: setgroups_failed_shapes)
next
  case sg: True
  from Setup_passed [OF sg, of uid gid s] obtain s1 where
    st: "SetupUserNamespace env uid gid s = map_and_elevate env uid gid s1"
    and t1: "trace s1 = trace s @ setgroups_events env"
    by auto
  show ?thesis
  proof (cases rule: map_and_elevate_cases [of env uid gid s1])
    case (uid_fail e s')
    from write_events_Fail [OF uid_fail(1), of "''/proc/self/uid_map''" "map_line uid"]
      setgroups_shapes [OF sg] uid_fail(2,3)
    show ?thesis
      by (auto simp: st t1 final_def wait_status_def)
  next
    case (gid_fail e s')
    from write_events_Fail [OF gid_fail(2), of "''/proc/self/gid_map''" "map_line gid"]
      setgroups_shapes [OF sg] gid_fail(1,3,4)
    show ?thesis
      by (auto simp: st t1 final_def wait_status_def write_events_Ok)
  next
    case (setresuid_fail e s')
    from setgroups_shapes [OF sg] setresuid_fail(1,2,4,5)
    show ?thesis
      by (auto simp: st t1 final_def wait_status_def write_events_Ok)
  next
    case (setresgid_fail e s')
    from setgroups_shapes [OF sg] setresgid_fail(1,2,5,6)
    show ?thesis
      by (auto simp: st t1 final_def wait_status_def write_events_Ok)
  next
    case (elevated s')
    from setgroups_shapes [OF sg] elevated(1,2,5,7)
    show ?thesis
      by (auto simp: st t1 final_def write_events_Ok)
  qed
qed


text \<open>
  C4. Take any call that fails while \<open>SetupUserNamespace\<close> runs. If it is a call on the
  group-override control file and the error is \<open>ENOENT\<close>, nothing is printed for it and the
  next thing the process does is to open the UID-mapping file: the failure is treated as
  success. Every other failed call (on the control file with another error, on the
  UID-mapping or the GID-mapping file, \<open>setresuid\<close> or \<open>setresgid\<close>) is fatal: what follows
  it is the line of \<open>perror\<close> with the message for its error and nothing else, and
  \<open>SetupUserNamespace\<close> ends the process with a status that is not zero.
\<close>

theorem setup_failure_handling:
  assumes "trace (final (SetupUserNamespace env uid gid s)) = trace s @ pre @ Sys c (Fail e) # post"
  shows "if file_of (Sys c (Fail e)) = Some ''/proc/self/setgroups'' \<and> e = ENOENT
         then (\<exists>r post'. post = Sys (Fopen ''/proc/self/uid_map'') r # post')
         else (\<exists>label. post = [Stderr (label @ '': '' @ strerror env e @ ''\<newline>'')])
              \<and> (\<exists>l n s'. SetupUserNamespace env uid gid s = Inl (Exit l n, s') \<and> wait_status n \<noteq> 0)"
proof -
  from Setup_events [of env uid gid s] obtain evs where
    t: "trace (final (SetupUserNamespace env uid gid s)) = trace s @ evs"
    and h: "failures_handled env evs"
    and o: "(\<exists>l n s'. SetupUserNamespace env uid gid s = Inl (Exit l n, s') \<and> wait_status n \<noteq> 0)
        \<or> stderr_text evs = []"
    by blast
  from t assms have evs: "evs = pre @ Sys c (Fail e) # post"
    by simp
  note d = failures_handledD [OF h evs]
  show ?thesis
  proof (cases "file_of (Sys c (Fail e)) = Some ''/proc/self/setgroups'' \<and> e = ENOENT")
    case True
    from d have "\<exists>r post'. post = Sys (Fopen ''/proc/self/uid_map'') r # post'"
      unfolding if_P [OF True] .
    then show ?thesis
      unfolding if_P [OF True] .
  next
    case False
    from d have "\<exists>label. post = [Stderr (perror_text env label e)]"
      unfolding if_not_P [OF False] .
    then obtain label where p: "post = [Stderr (perror_text env label e)]" ..
    with evs have "stderr_text evs \<noteq> []"
      by (simp add: stderr_text_append)
    with o have "\<exists>l n s'. SetupUserNamespace env uid gid s = Inl (Exit l n, s') \<and> wait_status n \<noteq> 0"
      by blast
    moreover from p have "\<exists>label. post = [Stderr (label @ '': '' @ strerror env e @ ''\<newline>'')]"
      unfolding perror_text_def by blast
    ultimately show ?thesis
      unfolding if_not_P [OF False] by (rule conjI [rotated])
  qed
qed

theorem setup_failure_handling_witness:
  "trace (final (SetupUserNamespace
       (good_env\<lparr>files := (files good_env)(''/proc/self/uid_map'' := writable\<lparr>fclose_r := Fail 22\<rparr>,
                                             ''/proc/self/setgroups'' := absent)\<rparr>)
       1000 1000 initial_state))
     = trace initial_state @ [] @ Sys (Fopen ''/proc/self/setgroups'') (Fail 2) #
         [Sys (Fopen ''/proc/self/uid_map'') Ok, Sys (Vfprintf ''/proc/self/uid_map'' ''0 1000 1\<newline>'') Ok,
          Sys (Fclose ''/proc/self/uid_map'') (Fail 22),
          Stderr (label_map ''/proc/self/uid_map'' ''uid'' @ '': Invalid argument\<newline>'')]
   \<and> (\<exists>s'. SetupUserNamespace
       (good_env\<lparr>files := (files good_env)(''/proc/self/uid_map'' := writable\<lparr>fclose_r := Fail 22\<rparr>,
                                             ''/proc/self/setgroups'' := absent)\<rparr>)
       1000 1000 initial_state = Inl (Exit 134 1, s'))
   \<and> wait_status 1 \<noteq> 0"
proof -
  let ?E = "good_env\<lparr>files := (files good_env)(''/proc/self/uid_map'' := writable\<lparr>fclose_r := Fail 22\<rparr>,
                                             ''/proc/self/setgroups'' := absent)\<rparr>"
  have r: "SetupUserNamespace ?E 1000 1000 initial_state
      = Inl (Exit 134 1, \<lparr>errno = 22, global_debug = False,
           trace = [Sys (Fopen ''/proc/self/setgroups'') (Fail 2),
             Sys (Fopen ''/proc/self/uid_map'') Ok, Sys (Vfprintf ''/proc/self/uid_map'' ''0 1000 1\<newline>'') Ok,
             Sys (Fclose ''/proc/self/uid_map'') (Fail 22),
             Stderr (label_map ''/proc/self/uid_map'' ''uid'' @ '': Invalid argument\<newline>'')]\<rparr>)"
    by (simp add: SetupUserNamespace_def WriteFile_def sys_def CHECK_CALL_def perror_def fprintf_stderr_def
        good_env_def absent_def writable_def initial_state_def ENOENT_def glibc_strerror_def map_line_def
        fmt_d_def show_nat.simps digit_def Let_def)
  have t1: "trace (final (SetupUserNamespace ?E 1000 1000 initial_state))
     = trace initial_state @ [] @ Sys (Fopen ''/proc/self/setgroups'') (Fail 2) #
         [Sys (Fopen ''/proc/self/uid_map'') Ok, Sys (Vfprintf ''/proc/self/uid_map'' ''0 1000 1\<newline>'') Ok,
          Sys (Fclose ''/proc/self/uid_map'') (Fail 22),
          Stderr (label_map ''/proc/self/uid_map'' ''uid'' @ '': Invalid argument\<newline>'')]"
    unfolding r by (simp add: final_def initial_state_def)
  have t2: "trace (final (SetupUserNamespace ?E 1000 1000 initial_state))
     = trace initial_state @ [Sys (Fopen ''/proc/self/setgroups'') (Fail 2),
          Sys (Fopen ''/proc/self/uid_map'') Ok, Sys (Vfprintf ''/proc/self/uid_map'' ''0 1000 1\<newline>'') Ok]
         @ Sys (Fclose ''/proc/self/uid_map'') (Fail 22) #
         [Stderr (label_map ''/proc/self/uid_map'' ''uid'' @ '': Invalid argument\<newline>'')]"
    unfolding r by (simp add: final_def initial_state_def)
  from setup_failure_handling [OF t1] setup_failure_handling [OF t2] t1 r show ?thesis
    by (simp add: wait_status_def)
qed


end
